theory Spec2Isabelle
  imports Main
begin

section \<open>Strings\<close>

text \<open>
  JavaScript strings are modelled as \<^typ>\<open>string\<close>; a character stands for one code unit
  in the range 0..255. The built-in string methods the sources call are written out here
  with the names they have in the sources.
\<close>

text \<open>The class \<^verbatim>\<open>\s\<close> of regular expressions, which is also the set that
  \<^verbatim>\<open>String.prototype.trim\<close> strips: tab, line feed, vertical tab, form feed, carriage
  return, space and no-break space.\<close>

definition is_space :: "char \<Rightarrow> bool" where
  "is_space c = (of_char c \<in> {9, 10, 11, 12, 13, 32, 160 :: nat})"

text \<open>Lower-casing one character: \<^verbatim>\<open>A-Z\<close> and the upper-case letters of the upper half
  of the range get bit 5 set (their code plus 32).\<close>

definition lower_char :: "char \<Rightarrow> char" where
  "lower_char c =
     (let n = of_char c :: nat in
      if (65 \<le> n \<and> n \<le> 90) \<or> (192 \<le> n \<and> n \<le> 222 \<and> n \<noteq> 215)
      then (case c of Char b0 b1 b2 b3 b4 b5 b6 b7 \<Rightarrow> Char b0 b1 b2 b3 b4 True b6 b7)
      else c)"

definition toLowerCase :: "string \<Rightarrow> string" where
  "toLowerCase s = map lower_char s"

definition trim :: "string \<Rightarrow> string" where
  "trim s = rev (dropWhile is_space (rev (dropWhile is_space s)))"

fun startsWith :: "string \<Rightarrow> string \<Rightarrow> bool" where
  "startsWith s [] = True"
| "startsWith [] (p # ps) = False"
| "startsWith (c # cs) (p # ps) = (c = p \<and> startsWith cs ps)"

fun includes_str :: "string \<Rightarrow> string \<Rightarrow> bool" where
  "includes_str [] p = (p = [])"
| "includes_str (c # cs) p = (startsWith (c # cs) p \<or> includes_str cs p)"

text \<open>\<^verbatim>\<open>s.indexOf(p)\<close>, with \<open>None\<close> for -1.\<close>

fun indexOf :: "string \<Rightarrow> string \<Rightarrow> nat option" where
  "indexOf [] p = (if p = [] then Some 0 else None)"
| "indexOf (c # cs) p =
     (if startsWith (c # cs) p then Some 0 else map_option Suc (indexOf cs p))"

definition newline :: char where
  "newline = CHR 0x0A"

text \<open>\<^verbatim>\<open>s.split(sep)\<close> for a separator of one character: never empty, the
  empty string gives one empty piece.\<close>

fun split_on :: "char \<Rightarrow> string \<Rightarrow> string list" where
  "split_on sep [] = [[]]"
| "split_on sep (c # cs) =
     (if c = sep then [] # split_on sep cs
      else (case split_on sep cs of [] \<Rightarrow> [[c]] | l # ls \<Rightarrow> (c # l) # ls))"

definition split_nl :: "string \<Rightarrow> string list" where
  "split_nl s = split_on newline s"

text \<open>\<^verbatim>\<open>lines.join('\n')\<close> and \<^verbatim>\<open>xs.join(', ')\<close>.\<close>

fun join_str :: "string \<Rightarrow> string list \<Rightarrow> string" where
  "join_str sep [] = []"
| "join_str sep [l] = l"
| "join_str sep (l # m # ls) = l @ sep @ join_str sep (m # ls)"

definition join_nl :: "string list \<Rightarrow> string" where
  "join_nl ls = join_str [newline] ls"

text \<open>A string between double quotes.\<close>

definition quoted :: "string \<Rightarrow> string" where
  "quoted s = CHR 0x22 # s @ [CHR 0x22]"

text \<open>Decimal rendering of a number inside a template literal.\<close>

definition digit_char :: "nat \<Rightarrow> char" where
  "digit_char d = ''0123456789'' ! d"

function show_nat :: "nat \<Rightarrow> string" where
  "show_nat n = (if n < 10 then [digit_char n] else show_nat (n div 10) @ [digit_char (n mod 10)])"
  by pat_completeness auto
termination
  by (relation "measure id") auto

declare show_nat.simps [simp del]

section \<open>Conversion engine: kebab case\<close>

text \<open>\<^verbatim>\<open>s.replace(/[C]+/g, r)\<close> for a character class \<open>C\<close>: every maximal run of
  characters of the class is replaced by \<open>r\<close>.\<close>

function replace_runs :: "(char \<Rightarrow> bool) \<Rightarrow> string \<Rightarrow> string \<Rightarrow> string" where
  "replace_runs p r [] = []"
| "replace_runs p r (c # cs) =
     (if p c then r @ replace_runs p r (dropWhile p cs) else c # replace_runs p r cs)"
  by pat_completeness auto
termination
  by (relation "measure (\<lambda>(p, r, s). length s)") (auto simp: length_dropWhile_le less_Suc_eq_le)

text \<open>The class \<^verbatim>\<open>[a-z0-9-]\<close>.\<close>

definition is_kebab_char :: "char \<Rightarrow> bool" where
  "is_kebab_char c =
     (let n = of_char c :: nat in
      (97 \<le> n \<and> n \<le> 122) \<or> (48 \<le> n \<and> n \<le> 57) \<or> c = CHR ''-'')"

definition is_hyphen :: "char \<Rightarrow> bool" where
  "is_hyphen c = (c = CHR ''-'')"

text \<open>\<^verbatim>\<open>s.replace(/^-+|-+$/g, '')\<close>: the leading run of hyphens goes, then the
  trailing one.\<close>

definition strip_hyphens :: "string \<Rightarrow> string" where
  "strip_hyphens s = rev (dropWhile is_hyphen (rev (dropWhile is_hyphen s)))"

text \<open>\<^verbatim>\<open>ConversionEngine.toKebabCase\<close>: trim, lower-case, runs of whitespace and
  underscores to one hyphen, drop what is outside \<^verbatim>\<open>[a-z0-9-]\<close>, runs of hyphens to one
  hyphen, strip hyphens at both ends.\<close>

definition toKebabCase :: "string \<Rightarrow> string" where
  "toKebabCase str =
     strip_hyphens
       (replace_runs is_hyphen ''-''
         (filter is_kebab_char
           (replace_runs (\<lambda>c. is_space c \<or> c = CHR ''_'') ''-''
             (toLowerCase (trim str)))))"

section \<open>Regular expressions\<close>

text \<open>
  The patterns of the sources are built from character classes, greedy repetition of a
  class, concatenation, alternation and the word boundary. A cursor is a position in the
  subject: the text before it, reversed, and the text after it. Running a pattern at a
  cursor gives every cursor at which a match can end, in the order in which a backtracking
  matcher tries them, so the head of the list is where the match ends.
\<close>

datatype rx =
    Eps
  | Sym "char \<Rightarrow> bool"
  | Many "char \<Rightarrow> bool"
  | Upto nat "char \<Rightarrow> bool"
  | Cat rx rx
  | Alt rx rx
  | WordB

type_synonym cursor = "string \<times> string"

fun many_rx :: "(char \<Rightarrow> bool) \<Rightarrow> string \<Rightarrow> string \<Rightarrow> cursor list" where
  "many_rx p b [] = [(b, [])]"
| "many_rx p b (c # a) = (if p c then many_rx p (c # b) a @ [(b, c # a)] else [(b, c # a)])"

fun upto_rx :: "nat \<Rightarrow> (char \<Rightarrow> bool) \<Rightarrow> string \<Rightarrow> string \<Rightarrow> cursor list" where
  "upto_rx 0 p b a = [(b, a)]"
| "upto_rx (Suc n) p b [] = [(b, [])]"
| "upto_rx (Suc n) p b (c # a) = (if p c then upto_rx n p (c # b) a @ [(b, c # a)] else [(b, c # a)])"

text \<open>The class \<^verbatim>\<open>\w\<close>, and whether the character next to the cursor is in it.\<close>

definition is_word_char :: "char \<Rightarrow> bool" where
  "is_word_char c =
     (let n = of_char c :: nat in
      (97 \<le> n \<and> n \<le> 122) \<or> (65 \<le> n \<and> n \<le> 90) \<or> (48 \<le> n \<and> n \<le> 57) \<or> c = CHR ''_'')"

definition word_at :: "string \<Rightarrow> bool" where
  "word_at s = (case s of [] \<Rightarrow> False | c # _ \<Rightarrow> is_word_char c)"

fun rx_run :: "rx \<Rightarrow> cursor \<Rightarrow> cursor list" where
  "rx_run Eps cur = [cur]"
| "rx_run (Sym p) cur =
     (case snd cur of [] \<Rightarrow> [] | c # a \<Rightarrow> if p c then [(c # fst cur, a)] else [])"
| "rx_run (Many p) cur = many_rx p (fst cur) (snd cur)"
| "rx_run (Upto n p) cur = upto_rx n p (fst cur) (snd cur)"
| "rx_run (Cat r1 r2) cur = concat (map (rx_run r2) (rx_run r1 cur))"
| "rx_run (Alt r1 r2) cur = rx_run r1 cur @ rx_run r2 cur"
| "rx_run WordB cur = (if word_at (fst cur) \<noteq> word_at (snd cur) then [cur] else [])"

definition rx_exec :: "rx \<Rightarrow> cursor \<Rightarrow> cursor option" where
  "rx_exec r cur = (case rx_run r cur of [] \<Rightarrow> None | e # _ \<Rightarrow> Some e)"

text \<open>The matched text between a start cursor and an end cursor.\<close>

definition matched :: "cursor \<Rightarrow> cursor \<Rightarrow> string" where
  "matched cur e = rev (take (length (fst e) - length (fst cur)) (fst e))"

text \<open>\<^verbatim>\<open>content.matchAll(pattern)\<close> for a global pattern, from a cursor on: each match
  as its index and its text. After a match the scan goes on where the match ended; after an
  empty match, and where nothing matches, one character further.\<close>

function matchAll :: "rx \<Rightarrow> cursor \<Rightarrow> (nat \<times> string) list" where
  "matchAll r (b, a) =
     (case rx_exec r (b, a) of
        Some (b', a') \<Rightarrow>
          (length b, matched (b, a) (b', a')) #
          (if length a' < length a then matchAll r (b', a')
           else (case a of [] \<Rightarrow> [] | c # cs \<Rightarrow> matchAll r (c # b, cs)))
      | None \<Rightarrow> (case a of [] \<Rightarrow> [] | c # cs \<Rightarrow> matchAll r (c # b, cs)))"
  by pat_completeness auto
termination
  by (relation "measure (\<lambda>(r, b, a). length a)") auto

declare matchAll.simps [simp del]

text \<open>Pattern builders: \<^verbatim>\<open>C+\<close>, a literal, and a literal under the \<^verbatim>\<open>i\<close> flag
  (the literals of the sources are in lower case).\<close>

definition plus_rx :: "(char \<Rightarrow> bool) \<Rightarrow> rx" where
  "plus_rx p = Cat (Sym p) (Many p)"

definition lit :: "string \<Rightarrow> rx" where
  "lit s = foldr (\<lambda>c r. Cat (Sym (\<lambda>d. d = c)) r) s Eps"

definition lit_ci :: "string \<Rightarrow> rx" where
  "lit_ci s = foldr (\<lambda>c r. Cat (Sym (\<lambda>d. lower_char d = c)) r) s Eps"

section \<open>Security validator\<close>

datatype issue_type = dangerous_command | suspicious_pattern | untrusted_source

datatype severity_level = safe | warning | unsafe

record SecurityIssue =
  type :: issue_type
  description :: string
  location :: string

record ValidationResult =
  isValid :: bool
  issues :: "SecurityIssue list"
  severity :: severity_level

text \<open>The two fields of \<^verbatim>\<open>SkillContent\<close> that the validator reads.\<close>

record SkillText =
  raw :: string
  url :: string

definition DANGEROUS_PATTERNS :: "(rx \<times> string) list" where
  "DANGEROUS_PATTERNS =
     [(Cat (lit_ci ''rm'') (Cat (plus_rx is_space) (lit_ci ''-rf'')),
         ''Dangerous recursive delete command (rm -rf)''),
      (Cat WordB (Cat (lit_ci ''sudo'') (plus_rx is_space)),
         ''Elevated privilege command (sudo)''),
      (Cat WordB (Cat (lit_ci ''eval'') (Cat (Many is_space) (lit ''(''))),
         ''Code evaluation (eval)''),
      (Cat WordB (Cat (lit_ci ''exec'') (Cat (Many is_space) (lit ''(''))),
         ''Code execution (exec)''),
      (Cat (lit_ci ''curl'') (Cat (Many (\<lambda>c. c \<noteq> CHR ''|'')) (Cat (lit ''|'')
           (Cat (Many is_space) (Alt (lit_ci ''bash'') (lit_ci ''sh''))))),
         ''Piping curl output to shell''),
      (Cat (lit_ci ''wget'') (Cat (Many (\<lambda>c. c \<noteq> CHR ''|'')) (Cat (lit ''|'')
           (Cat (Many is_space) (Alt (lit_ci ''bash'') (lit_ci ''sh''))))),
         ''Piping wget output to shell'')]"

definition SUSPICIOUS_FILE_OPS :: "(rx \<times> string) list" where
  "SUSPICIOUS_FILE_OPS =
     [(lit_ci ''/etc/'', ''Access to system configuration directory (/etc/)''),
      (lit_ci ''/usr/'', ''Access to system binaries directory (/usr/)''),
      (lit_ci ''/bin/'', ''Access to system binaries directory (/bin/)''),
      (lit_ci ''~/.'', ''Access to hidden files in home directory'')]"

definition CODE_INJECTION_PATTERNS :: "(rx \<times> string) list" where
  "CODE_INJECTION_PATTERNS =
     [(Cat (lit ''${'') (Cat (plus_rx (\<lambda>c. c \<noteq> CHR ''}'')) (lit ''}'')),
         ''Variable expansion pattern (${...})''),
      (Cat (lit ''$('') (Cat (plus_rx (\<lambda>c. c \<noteq> CHR '')'')) (lit '')'')),
         ''Command substitution pattern ($(...)'')]"

definition isUrlTrusted :: "string \<Rightarrow> bool" where
  "isUrlTrusted u = startsWith u ''https://raw.githubusercontent.com/''"

definition getLineNumber :: "string \<Rightarrow> nat \<Rightarrow> nat" where
  "getLineNumber content index = length (split_nl (take index content))"

text \<open>The loop shared by the three scanners: for each pattern of a table, one issue for
  each match.\<close>

definition scanWith :: "issue_type \<Rightarrow> (rx \<times> string) list \<Rightarrow> string \<Rightarrow> SecurityIssue list" where
  "scanWith ty table content =
     concat (map (\<lambda>(pattern, descr).
        map (\<lambda>(index, m).
              \<lparr>type = ty, description = descr,
               location = ''Line '' @ show_nat (getLineNumber content index) @ '': '' @ m\<rparr>)
            (matchAll pattern ([], content)))
        table)"

definition scanForDangerousPatterns :: "string \<Rightarrow> SecurityIssue list" where
  "scanForDangerousPatterns content = scanWith dangerous_command DANGEROUS_PATTERNS content"

definition scanForSuspiciousFileOps :: "string \<Rightarrow> SecurityIssue list" where
  "scanForSuspiciousFileOps content = scanWith suspicious_pattern SUSPICIOUS_FILE_OPS content"

definition scanForCodeInjection :: "string \<Rightarrow> SecurityIssue list" where
  "scanForCodeInjection content = scanWith suspicious_pattern CODE_INJECTION_PATTERNS content"

definition determineSeverity :: "SecurityIssue list \<Rightarrow> severity_level" where
  "determineSeverity iss =
     (if length iss = 0 then safe
      else
        let hasUntrustedSource = list_ex (\<lambda>i. type i = untrusted_source) iss;
            hasDangerousCommand = list_ex (\<lambda>i. type i = dangerous_command) iss
        in if hasUntrustedSource \<or> hasDangerousCommand then unsafe else warning)"

definition validate :: "'a SkillText_scheme \<Rightarrow> ValidationResult" where
  "validate content =
     (let iss =
            (if \<not> isUrlTrusted (url content)
             then [\<lparr>type = untrusted_source,
                    description = ''Content does not originate from trusted GitHub domain'',
                    location = url content\<rparr>]
             else [])
            @ scanForDangerousPatterns (raw content)
            @ scanForSuspiciousFileOps (raw content)
            @ scanForCodeInjection (raw content);
          sev = determineSeverity iss
      in \<lparr>isValid = (sev \<noteq> unsafe), issues = iss, severity = sev\<rparr>)"

section \<open>Errors\<close>

text \<open>
  The error classes of \<^verbatim>\<open>errors.ts\<close>, with the fields that the modelled code sets. A
  context is the record of extra keys an error is constructed with. Timestamps and stack
  traces are left out, and so is the log kept by \<^verbatim>\<open>ErrorLogger\<close>.
\<close>

datatype ctx_value = CStr string | CNum nat | CList "string list"

datatype error =
    NetworkError (message: string) (err_url: string) (statusCode: "nat option")
      (retryCount: nat) (err_context: "(string \<times> ctx_value) list")
  | ValidationError (message: string) (validationType: string) (details: "string list")
  | ParsingError (message: string) (parserType: string)
  | SkillResolutionError (message: string) (err_identifier: string)
      (suggestions: "string list") (err_context: "(string \<times> ctx_value) list")
  | Error (message: string)

fun isNetworkError :: "error \<Rightarrow> bool" where
  "isNetworkError (NetworkError m u s r c) = True"
| "isNetworkError _ = False"

section \<open>Conversion engine: parsing\<close>

record SkillSection =
  heading :: string
  content :: string
  level :: nat

definition is_hash :: "char \<Rightarrow> bool" where
  "is_hash c = (c = CHR ''#'')"

text \<open>The class \<^verbatim>\<open>.\<close>: everything but the line terminators.\<close>

definition is_dot :: "char \<Rightarrow> bool" where
  "is_dot c = (c \<noteq> newline \<and> c \<noteq> CHR 0x0D)"

fun first_some :: "('a \<Rightarrow> 'b option) \<Rightarrow> 'a list \<Rightarrow> 'b option" where
  "first_some f [] = None"
| "first_some f (x # xs) = (case f x of Some y \<Rightarrow> Some y | None \<Rightarrow> first_some f xs)"

text \<open>\<^verbatim>\<open>line.match(/^(#{1,6})\s+(.+)/)\<close>: the two groups of the first way to match,
  trying the ends of each part in the matcher's order.\<close>

definition header_match :: "string \<Rightarrow> (string \<times> string) option" where
  "header_match line =
     first_some (\<lambda>c1.
       first_some (\<lambda>c2.
         case rx_run (plus_rx is_dot) c2 of
           [] \<Rightarrow> None
         | c3 # _ \<Rightarrow> Some (matched ([], line) c1, matched c2 c3))
         (rx_run (plus_rx is_space) c1))
       (rx_run (Cat (Sym is_hash) (Upto 5 is_hash)) ([], line))"

definition is_fence_line :: "string \<Rightarrow> bool" where
  "is_fence_line line = startsWith (trim line) ''```''"

text \<open>The variables of the loop of \<^verbatim>\<open>extractSections\<close>: \<^verbatim>\<open>sections\<close>,
  \<^verbatim>\<open>currentSection\<close>, \<^verbatim>\<open>currentContent\<close> and \<^verbatim>\<open>inCodeBlock\<close>.\<close>

type_synonym scan_state = "SkillSection list \<times> SkillSection option \<times> string list \<times> bool"

fun section_step :: "scan_state \<Rightarrow> string \<Rightarrow> scan_state" where
  "section_step (sections, currentSection, currentContent, inCodeBlock) line =
     (let inCodeBlock' = (if is_fence_line line then \<not> inCodeBlock else inCodeBlock) in
      case (if \<not> inCodeBlock' then header_match line else None) of
        Some (hashes, text) \<Rightarrow>
          ((case currentSection of
              Some s \<Rightarrow> sections @ [s\<lparr>content := trim (join_nl currentContent)\<rparr>]
            | None \<Rightarrow> sections),
           Some \<lparr>heading = trim text, content = [], level = length hashes\<rparr>,
           [],
           inCodeBlock')
      | None \<Rightarrow> (sections, currentSection, currentContent @ [line], inCodeBlock'))"

fun finish_sections :: "scan_state \<Rightarrow> SkillSection list" where
  "finish_sections (sections, currentSection, currentContent, inCodeBlock) =
     (case currentSection of
        Some s \<Rightarrow> sections @ [s\<lparr>content := trim (join_nl currentContent)\<rparr>]
      | None \<Rightarrow>
          if length currentContent > 0
          then sections @ [\<lparr>heading = ''Content'', content = trim (join_nl currentContent),
                            level = 1\<rparr>]
          else sections)"

definition sections_of_lines :: "string list \<Rightarrow> SkillSection list" where
  "sections_of_lines lines = finish_sections (foldl section_step ([], None, [], False) lines)"

definition extractSections :: "string \<Rightarrow> SkillSection list" where
  "extractSections body = sections_of_lines (split_nl body)"

text \<open>
  A number of JavaScript: a finite one, \<open>Finite m e\<close> standing for \<open>m\<close> times 2 to the
  power \<open>e\<close>, not-a-number, or an infinity.
\<close>

datatype js_number = Finite int int | NaN | PlusInfinity | MinusInfinity

text \<open>
  What \<^verbatim>\<open>yaml.load\<close> can return. The library is not part of the repository, so the
  parser takes it as a parameter: a function from the text of the block to a value, or to
  the message of the exception it throws. \<open>YNull\<close> stands for both \<^verbatim>\<open>null\<close> and
  \<^verbatim>\<open>undefined\<close>, \<open>YOther\<close> for an object of another kind, such as the date that a
  timestamp loads to.
\<close>

datatype yaml = YNull | YBool bool | YNum js_number | YStr string | YSeq "yaml list"
  | YMap "(string \<times> yaml) list" | YOther

type_synonym yaml_loader = "string \<Rightarrow> string + yaml"

text \<open>The value as a condition, \<^verbatim>\<open>typeof v === 'object'\<close>, and \<^verbatim>\<open>v[key]\<close>. As a
  condition a number holds unless it is zero or not-a-number; a sequence, a mapping and
  any other object hold, empty or not.\<close>

fun number_truthy :: "js_number \<Rightarrow> bool" where
  "number_truthy (Finite m e) = (m \<noteq> 0)"
| "number_truthy NaN = False"
| "number_truthy PlusInfinity = True"
| "number_truthy MinusInfinity = True"

fun truthy :: "yaml \<Rightarrow> bool" where
  "truthy YNull = False"
| "truthy (YBool b) = b"
| "truthy (YNum n) = number_truthy n"
| "truthy (YStr s) = (s \<noteq> [])"
| "truthy (YSeq xs) = True"
| "truthy (YMap m) = True"
| "truthy YOther = True"

fun typeof_object :: "yaml \<Rightarrow> bool" where
  "typeof_object YNull = True"
| "typeof_object (YSeq xs) = True"
| "typeof_object (YMap m) = True"
| "typeof_object YOther = True"
| "typeof_object _ = False"

fun field :: "yaml \<Rightarrow> string \<Rightarrow> yaml" where
  "field (YMap m) k = (case map_of m k of Some v \<Rightarrow> v | None \<Rightarrow> YNull)"
| "field _ k = YNull"

record ParsedSkill =
  frontmatter :: yaml
  body :: string
  sections :: "SkillSection list"

text \<open>\<^verbatim>\<open>content.match(/^---\n([\s\S]*?)\n---/)\<close>: the whole match and its group. The
  group is lazy, so it ends at the first line feed followed by three hyphens.\<close>

definition frontmatter_match :: "string \<Rightarrow> (string \<times> string) option" where
  "frontmatter_match src =
     (if startsWith src (''---'' @ [newline])
      then (case indexOf (drop 4 src) (newline # ''---'') of
              Some k \<Rightarrow> Some (take (4 + k + 4) src, take k (drop 4 src))
            | None \<Rightarrow> None)
      else None)"

definition default_frontmatter :: yaml where
  "default_frontmatter =
     YMap [(''name'', YStr ''Untitled Skill''),
           (''description'', YStr ''No description provided'')]"

text \<open>\<^verbatim>\<open>ConversionEngine.parseSkill\<close>. The warning it prints when there is no
  frontmatter is not modelled.\<close>

definition parseSkill :: "yaml_loader \<Rightarrow> string \<Rightarrow> error + ParsedSkill" where
  "parseSkill yaml_load src =
     (if src = [] \<or> length (trim src) = 0
      then Inl (ValidationError ''Skill content is empty'' ''content''
                  [''The skill file contains no content''])
      else
        case frontmatter_match src of
          Some (whole, yamlContent) \<Rightarrow>
            (case yaml_load yamlContent of
               Inl exc \<Rightarrow> Inl (ParsingError ''Failed to parse YAML frontmatter'' ''yaml'')
             | Inr parsed \<Rightarrow>
                 if \<not> truthy parsed \<or> \<not> typeof_object parsed
                 then Inl (ParsingError ''YAML frontmatter is not a valid object'' ''yaml'')
                 else if \<not> truthy (field parsed ''name'')
                 then Inl (ValidationError ''Skill frontmatter missing required field: name''
                             ''schema'' [''The '' @ quoted ''name'' @ '' field is required in skill frontmatter''])
                 else if \<not> truthy (field parsed ''description'')
                 then Inl (ValidationError
                             ''Skill frontmatter missing required field: description''
                             ''schema''
                             [''The '' @ quoted ''description'' @
                                '' field is required in skill frontmatter''])
                 else
                   let body = trim (drop (length whole) src)
                   in Inr \<lparr>frontmatter = parsed, body = body,
                           sections = extractSections body\<rparr>)
        | None \<Rightarrow>
            let body = trim src
            in Inr \<lparr>frontmatter = default_frontmatter, body = body,
                    sections = extractSections body\<rparr>)"

section \<open>The network, the clock and the log of effects\<close>

text \<open>
  What a request can come to: a response with its status, status text and body, or an
  exception of the transport with its message. The network is a parameter of the model:
  \<open>net n u\<close> is what the \<open>n\<close>-th request of a run (counted from 0) comes to when it asks
  for the URL \<open>u\<close>. The clock is a parameter too: \<open>clock k\<close> is the \<open>k\<close>-th reading of
  \<^verbatim>\<open>Date.now()\<close>.
\<close>

datatype response = Response nat string string | Failure string

type_synonym network = "nat \<Rightarrow> string \<Rightarrow> response"

type_synonym clock = "nat \<Rightarrow> int"

text \<open>
  The effects of a run so far: the URLs requested, the delays slept (in milliseconds), the
  number of clock readings, and the tool handlers entered, each with its first argument.
\<close>

record world =
  requests :: "string list"
  sleeps :: "nat list"
  ticks :: nat
  calls :: "(string \<times> string) list"

definition request :: "network \<Rightarrow> string \<Rightarrow> world \<Rightarrow> response \<times> world" where
  "request net u w = (net (length (requests w)) u, w\<lparr>requests := requests w @ [u]\<rparr>)"

definition sleep :: "nat \<Rightarrow> world \<Rightarrow> world" where
  "sleep ms w = w\<lparr>sleeps := sleeps w @ [ms]\<rparr>"

definition now :: "clock \<Rightarrow> world \<Rightarrow> int \<times> world" where
  "now clk w = (clk (ticks w), w\<lparr>ticks := Suc (ticks w)\<rparr>)"

definition enter :: "string \<Rightarrow> string \<Rightarrow> world \<Rightarrow> world" where
  "enter handler arg w = w\<lparr>calls := calls w @ [(handler, arg)]\<rparr>"

definition response_ok :: "nat \<Rightarrow> bool" where
  "response_ok st = (200 \<le> st \<and> st \<le> 299)"

section \<open>Skill resolver\<close>

datatype skill_source = skills_sh | github

record SkillShMetadata =
  meta_installs :: int
  meta_trending :: bool

record ResolvedSkill =
  owner :: string
  repo :: string
  skillPath :: string
  fullUrl :: string
  source :: skill_source
  metadata :: "SkillShMetadata option"

record SkillShEntry =
  name :: string
  entry_owner :: string
  entry_repo :: string
  installs :: int
  entry_description :: "string option"
  trending :: "bool option"

definition raw_url :: "string \<Rightarrow> string \<Rightarrow> string \<Rightarrow> string \<Rightarrow> string" where
  "raw_url own rep branch path =
     ''https://raw.githubusercontent.com/'' @ own @ ''/'' @ rep @ ''/'' @ branch @ ''/'' @ path
       @ ''/SKILL.md''"

text \<open>\<^verbatim>\<open>SkillResolver.resolveFromGitHub\<close>. Nothing in its \<^verbatim>\<open>try\<close> block throws
  but the format error, which the \<^verbatim>\<open>catch\<close> passes on.\<close>

definition resolveFromGitHub :: "string \<Rightarrow> error + ResolvedSkill" where
  "resolveFromGitHub ident =
     (let parts = filter (\<lambda>part. length part > 0) (split_on (CHR ''/'') ident) in
      case parts of
        own # rep # part # remaining \<Rightarrow>
          let remainingParts = part # remaining;
              path = (if hd remainingParts = ''skills'' then join_str ''/'' remainingParts
                      else ''skills/'' @ join_str ''/'' remainingParts)
          in Inr \<lparr>owner = own, repo = rep, skillPath = path,
                  fullUrl = raw_url own rep ''main'' path, source = github, metadata = None\<rparr>
      | [own, skillName] \<Rightarrow>
          let rep = ''agent-skills''; path = ''skills/'' @ skillName
          in Inr \<lparr>owner = own, repo = rep, skillPath = path,
                  fullUrl = raw_url own rep ''main'' path, source = github, metadata = None\<rparr>
      | _ \<Rightarrow>
          Inl (SkillResolutionError ''Invalid identifier format'' ident
                 [''Try: owner/repo'', ''Try: owner/repo/skill-name'']
                 [(''expectedFormat'', CStr ''owner/repo or owner/repo/skill-name'')]))"

definition skillShEntryToResolvedSkill :: "SkillShEntry \<Rightarrow> ResolvedSkill" where
  "skillShEntryToResolvedSkill entry =
     (let path = ''skills/'' @ name entry in
      \<lparr>owner = entry_owner entry, repo = entry_repo entry, skillPath = path,
       fullUrl = raw_url (entry_owner entry) (entry_repo entry) ''main'' path,
       source = skills_sh,
       metadata = Some \<lparr>meta_installs = installs entry, meta_trending = False\<rparr>\<rparr>)"

text \<open>The cache of the directory: the entries and the time they were stored at.\<close>

type_synonym skills_cache = "(SkillShEntry list \<times> int) option"

definition CACHE_TTL :: int where
  "CACHE_TTL = 60 * 60 * 1000"

text \<open>
  \<^verbatim>\<open>SkillResolver.fetchSkillsDirectory\<close>. The extraction of the entries from the page
  is the parameter \<open>parseHTML\<close>. A failure inside the \<^verbatim>\<open>try\<close> block, the error for a
  response that is not ok included, ends in the \<^verbatim>\<open>catch\<close>, which returns the stale
  entries if there are any.
\<close>

definition refreshSkillsDirectory ::
  "network \<Rightarrow> clock \<Rightarrow> (string \<Rightarrow> SkillShEntry list) \<Rightarrow> skills_cache \<Rightarrow> world \<Rightarrow>
   (error + SkillShEntry list) \<times> skills_cache \<times> world" where
  "refreshSkillsDirectory net clk parseHTML cache w =
     (case request net ''https://skills.sh'' w of
        (Response st stt html, w1) \<Rightarrow>
          if response_ok st
          then (let skills = parseHTML html; (t, w2) = now clk w1
                in (Inr skills, Some (skills, t), w2))
          else (case cache of
                  Some (entries, t) \<Rightarrow> (Inr entries, cache, w1)
                | None \<Rightarrow>
                    (Inl (NetworkError ''Failed to fetch skills.sh directory''
                            ''https://skills.sh'' (Some st) 0 [(''statusText'', CStr stt)]),
                     cache, w1))
      | (Failure msg, w1) \<Rightarrow>
          (case cache of
             Some (entries, t) \<Rightarrow> (Inr entries, cache, w1)
           | None \<Rightarrow>
               (Inl (NetworkError ''Failed to fetch skills.sh directory''
                       ''https://skills.sh'' None 0
                       [(''originalError'', CStr msg),
                        (''suggestion'', CStr ''Check your internet connection and try again'')]),
                cache, w1)))"

definition fetchSkillsDirectory ::
  "network \<Rightarrow> clock \<Rightarrow> (string \<Rightarrow> SkillShEntry list) \<Rightarrow> skills_cache \<Rightarrow> world \<Rightarrow>
   (error + SkillShEntry list) \<times> skills_cache \<times> world" where
  "fetchSkillsDirectory net clk parseHTML cache w =
     (case cache of
        Some (entries, stored) \<Rightarrow>
          (let (t, w1) = now clk w in
           if t - stored < CACHE_TTL then (Inr entries, cache, w1)
           else refreshSkillsDirectory net clk parseHTML cache w1)
      | None \<Rightarrow> refreshSkillsDirectory net clk parseHTML cache w)"

text \<open>The part of \<^verbatim>\<open>resolveFromSkillsSh\<close> after the directory has been fetched.\<close>

definition resolveInDirectory :: "SkillShEntry list \<Rightarrow> string \<Rightarrow> error + ResolvedSkill" where
  "resolveInDirectory skills ident =
     (let normalizedIdentifier = toLowerCase ident;
          matches = filter (\<lambda>skill. toLowerCase (name skill) = normalizedIdentifier \<or>
                                     includes_str (toLowerCase (name skill)) normalizedIdentifier)
                      skills
      in if length matches = 0
         then Inl (SkillResolutionError
                     (''Skill '' @ quoted ident @ '' not found in skills.sh directory'') ident
                     [''Try using owner/repo format instead'',
                      ''Search skills.sh for available skills'']
                     [(''searchedIn'', CStr ''skills.sh''), (''totalSkills'', CNum (length skills))])
         else if length matches > 1
         then (case find (\<lambda>s. toLowerCase (name s) = normalizedIdentifier) matches of
                 Some exactMatch \<Rightarrow> Inr (skillShEntryToResolvedSkill exactMatch)
               | None \<Rightarrow>
                   Inl (SkillResolutionError (''Multiple skills match '' @ quoted ident) ident
                          (map (\<lambda>s. entry_owner s @ ''/'' @ entry_repo s @ ''/'' @ name s) matches)
                          [(''matchCount'', CNum (length matches))]))
         else Inr (skillShEntryToResolvedSkill (hd matches)))"

definition resolveFromSkillsSh ::
  "network \<Rightarrow> clock \<Rightarrow> (string \<Rightarrow> SkillShEntry list) \<Rightarrow> string \<Rightarrow> skills_cache \<Rightarrow> world \<Rightarrow>
   (error + ResolvedSkill) \<times> skills_cache \<times> world" where
  "resolveFromSkillsSh net clk parseHTML ident cache w =
     (case fetchSkillsDirectory net clk parseHTML cache w of
        (Inl e, cache', w') \<Rightarrow> (Inl e, cache', w')
      | (Inr skills, cache', w') \<Rightarrow> (resolveInDirectory skills ident, cache', w'))"

text \<open>\<^verbatim>\<open>SkillResolver.resolve\<close>.\<close>

definition resolve ::
  "network \<Rightarrow> clock \<Rightarrow> (string \<Rightarrow> SkillShEntry list) \<Rightarrow> string \<Rightarrow> skills_cache \<Rightarrow> world \<Rightarrow>
   (error + ResolvedSkill) \<times> skills_cache \<times> world" where
  "resolve net clk parseHTML ident cache w =
     (if includes_str ident ''/''
      then (resolveFromGitHub ident, cache, w)
      else resolveFromSkillsSh net clk parseHTML ident cache w)"

section \<open>Skill fetcher\<close>

record SkillContent = SkillText +
  content_source :: ResolvedSkill

definition defaultBranches :: "string list" where
  "defaultBranches = [''main'', ''master'', ''HEAD'']"

definition maxRetries :: nat where
  "maxRetries = 3"

definition retryDelayMs :: nat where
  "retryDelayMs = 1000"

definition constructGitHubRawUrl :: "string \<Rightarrow> string \<Rightarrow> string \<Rightarrow> string \<Rightarrow> string" where
  "constructGitHubRawUrl own rep branch path =
     (let cleanPath = (if startsWith path ''/'' then drop 1 path else path)
      in ''https://raw.githubusercontent.com'' @ ''/'' @ own @ ''/'' @ rep @ ''/'' @ branch
           @ ''/'' @ cleanPath @ ''/SKILL.md'')"

text \<open>\<^verbatim>\<open>SkillFetcher.fetchUrl\<close>.\<close>

definition fetchUrl :: "network \<Rightarrow> string \<Rightarrow> world \<Rightarrow> (error + string) \<times> world" where
  "fetchUrl net u w =
     (case request net u w of
        (Response st stt txt, w1) \<Rightarrow>
          if response_ok st then (Inr txt, w1)
          else (Inl (NetworkError (''HTTP '' @ show_nat st @ '': '' @ stt) u (Some st) 0
                       [(''statusText'', CStr stt)]),
                w1)
      | (Failure msg, w1) \<Rightarrow>
          (Inl (NetworkError ''Failed to fetch URL'' u None 0 [(''originalError'', CStr msg)]),
           w1))"

text \<open>The loop of \<^verbatim>\<open>SkillFetcher.fetchWithRetry\<close>, from the attempt \<open>attempt\<close> on.\<close>

function fetch_attempts ::
  "network \<Rightarrow> string \<Rightarrow> nat \<Rightarrow> error option \<Rightarrow> world \<Rightarrow> (error + string) \<times> world" where
  "fetch_attempts net u attempt lastError w =
     (if attempt < maxRetries
      then (case fetchUrl net u w of
              (Inr txt, w1) \<Rightarrow> (Inr txt, w1)
            | (Inl e, w1) \<Rightarrow>
                if includes_str (message e) ''404''
                then (Inl (NetworkError ''Resource not found'' u (Some 404) attempt
                             [(''message'', CStr ''The requested skill file does not exist'')]),
                      w1)
                else fetch_attempts net u (attempt + 1) (Some e)
                       (if attempt < maxRetries - 1
                        then sleep (retryDelayMs * 2 ^ attempt) w1
                        else w1))
      else (Inl (NetworkError (''Failed to fetch after '' @ show_nat maxRetries @ '' attempts'') u
                   None maxRetries
                   [(''lastError'',
                       CStr (case lastError of Some e \<Rightarrow> message e | None \<Rightarrow> ''Unknown error'')),
                    (''suggestion'', CStr ''Check your internet connection and try again'')]),
            w))"
  by pat_completeness auto
termination
  by (relation "measure (\<lambda>(net, u, attempt, lastError, w). maxRetries - attempt)") auto

declare fetch_attempts.simps [simp del]

definition fetchWithRetry :: "network \<Rightarrow> string \<Rightarrow> world \<Rightarrow> (error + string) \<times> world" where
  "fetchWithRetry net u w = fetch_attempts net u 0 None w"

text \<open>The loop of \<^verbatim>\<open>SkillFetcher.fetchSkill\<close> over the branches still to try.\<close>

fun try_branches ::
  "network \<Rightarrow> ResolvedSkill \<Rightarrow> string list \<Rightarrow> string list \<Rightarrow> error option \<Rightarrow> world \<Rightarrow>
   (error + SkillContent) \<times> world" where
  "try_branches net resolved [] triedBranches lastError w =
     (Inl (NetworkError
             (''Failed to fetch skill from '' @ owner resolved @ ''/'' @ repo resolved @ ''/''
                @ skillPath resolved)
             (fullUrl resolved) None 0
             [(''triedBranches'', CList triedBranches),
              (''lastError'',
                 CStr (case lastError of Some e \<Rightarrow> message e | None \<Rightarrow> ''Unknown error''))]),
      w)"
| "try_branches net resolved (branch # rest) triedBranches lastError w =
     (let u = constructGitHubRawUrl (owner resolved) (repo resolved) branch (skillPath resolved);
          tried = triedBranches @ [branch]
      in case fetchWithRetry net u w of
           (Inr txt, w1) \<Rightarrow> (Inr \<lparr>raw = txt, url = u, content_source = resolved\<rparr>, w1)
         | (Inl e, w1) \<Rightarrow>
             if includes_str (message e) ''404'' \<or> (isNetworkError e \<and> statusCode e = Some 404)
             then (if branch = last defaultBranches
                   then (Inl (NetworkError
                                (''Skill not found at '' @ owner resolved @ ''/'' @ repo resolved
                                   @ ''/'' @ skillPath resolved)
                                u (Some 404) 0
                                [(''triedBranches'', CList tried),
                                 (''suggestion'',
                                    CStr ''Verify the skill name and repository are correct'')]),
                         w1)
                   else try_branches net resolved rest tried (Some e) w1)
             else if branch = last defaultBranches
             then (if isNetworkError e then (Inl e, w1)
                   else (Inl (NetworkError
                                (''Failed to fetch skill from '' @ owner resolved @ ''/''
                                   @ repo resolved @ ''/'' @ skillPath resolved)
                                u None 0
                                [(''triedBranches'', CList tried),
                                 (''lastError'', CStr (message e))]),
                         w1))
             else try_branches net resolved rest tried (Some e) w1)"

definition fetchSkill ::
  "network \<Rightarrow> ResolvedSkill \<Rightarrow> world \<Rightarrow> (error + SkillContent) \<times> world" where
  "fetchSkill net resolved w = try_branches net resolved defaultBranches [] None w"

section \<open>Tool handlers\<close>

text \<open>
  The two converters of the conversion engine serialise with \<^verbatim>\<open>yaml.dump\<close> and read
  the clock; here they are parameters, with an error for an exception they throw. A power
  has one file, \<^verbatim>\<open>POWER.md\<close>, given by its content. Timestamps are left out of the
  results.
\<close>

record SteeringFile =
  sf_filename :: string
  sf_content :: string
  sf_originalSkill :: string
  sf_sourceUrl :: string

record PowerStructure =
  powerName :: string
  power_content :: string

record env =
  env_net :: network
  env_clock :: clock
  env_parseHTML :: "string \<Rightarrow> SkillShEntry list"
  env_yaml :: yaml_loader
  env_toSteeringFile :: "ParsedSkill \<Rightarrow> string \<Rightarrow> error + SteeringFile"
  env_toPower :: "ParsedSkill \<Rightarrow> string \<Rightarrow> error + PowerStructure"

text \<open>\<^verbatim>\<open>!s || s.trim().length === 0\<close> and \<^verbatim>\<open>s || 'unknown'\<close>.\<close>

definition blank :: "string \<Rightarrow> bool" where
  "blank s = (s = [] \<or> length (trim s) = 0)"

definition or_unknown :: "string \<Rightarrow> string" where
  "or_unknown s = (if s = [] then ''unknown'' else s)"

record FetchSkillResult =
  fr_content :: string
  fr_url :: string
  fr_name :: string
  fr_owner :: string
  fr_repo :: string
  fr_skillPath :: string

text \<open>\<^verbatim>\<open>fetchSkillHandler\<close>: a new resolver, so an empty cache, for each call.\<close>

definition fetchSkillHandler :: "env \<Rightarrow> string \<Rightarrow> world \<Rightarrow> (error + FetchSkillResult) \<times> world" where
  "fetchSkillHandler e ident w =
     (let w0 = enter ''fetch_skill'' ident w in
      if blank ident then (Inl (Error ''Skill identifier is required''), w0)
      else
        case resolve (env_net e) (env_clock e) (env_parseHTML e) ident None w0 of
          (Inl err, cache, w1) \<Rightarrow> (Inl err, w1)
        | (Inr resolved, cache, w1) \<Rightarrow>
            (case fetchSkill (env_net e) resolved w1 of
               (Inl err, w2) \<Rightarrow> (Inl err, w2)
             | (Inr c, w2) \<Rightarrow>
                 (let popped = last (split_on (CHR ''/'') (skillPath resolved))
                  in (Inr \<lparr>fr_content = raw c, fr_url = url c,
                           fr_name = (if popped = [] then ident else popped),
                           fr_owner = owner resolved, fr_repo = repo resolved,
                           fr_skillPath = skillPath resolved\<rparr>,
                      w2))))"

text \<open>\<^verbatim>\<open>validateSkillHandler\<close>.\<close>

definition validateSkillHandler ::
  "string \<Rightarrow> string \<Rightarrow> world \<Rightarrow> (error + ValidationResult) \<times> world" where
  "validateSkillHandler txt u w =
     (let w0 = enter ''validate_skill'' txt w in
      if blank txt then (Inl (Error ''Skill content is required''), w0)
      else (Inr (validate \<lparr>raw = txt, url = or_unknown u\<rparr>), w0))"

record ConvertToSteeringResult =
  steeringContent :: string
  steering_filename :: string
  steering_originalSkill :: string

record ConvertToPowerResult =
  powerContent :: string
  converted_powerName :: string

text \<open>\<^verbatim>\<open>convertToSteeringHandler\<close> and \<^verbatim>\<open>convertToPowerHandler\<close>.\<close>

definition convertToSteeringHandler ::
  "env \<Rightarrow> string \<Rightarrow> string \<Rightarrow> world \<Rightarrow> (error + ConvertToSteeringResult) \<times> world" where
  "convertToSteeringHandler e txt sourceUrl w =
     (let w0 = enter ''convert_to_steering'' txt w in
      if blank txt then (Inl (Error ''Skill content is required''), w0)
      else
        case parseSkill (env_yaml e) txt of
          Inl err \<Rightarrow> (Inl err, w0)
        | Inr parsed \<Rightarrow>
            (case env_toSteeringFile e parsed (or_unknown sourceUrl) of
               Inl err \<Rightarrow> (Inl err, w0)
             | Inr steering \<Rightarrow>
                 (Inr \<lparr>steeringContent = sf_content steering,
                       steering_filename = sf_filename steering,
                       steering_originalSkill = sf_originalSkill steering\<rparr>,
                  w0)))"

definition convertToPowerHandler ::
  "env \<Rightarrow> string \<Rightarrow> string \<Rightarrow> world \<Rightarrow> (error + ConvertToPowerResult) \<times> world" where
  "convertToPowerHandler e txt sourceUrl w =
     (let w0 = enter ''convert_to_power'' txt w in
      if blank txt then (Inl (Error ''Skill content is required''), w0)
      else
        case parseSkill (env_yaml e) txt of
          Inl err \<Rightarrow> (Inl err, w0)
        | Inr parsed \<Rightarrow>
            (case env_toPower e parsed (or_unknown sourceUrl) of
               Inl err \<Rightarrow> (Inl err, w0)
             | Inr pw \<Rightarrow>
                 (Inr \<lparr>powerContent = power_content pw,
                       converted_powerName = powerName pw\<rparr>,
                  w0)))"

record ImportSkillArgs =
  arg_identifier :: string
  outputFormat :: string
  skipValidation :: "bool option"

record ImportSkillResult =
  success :: bool
  result_content :: string
  filename :: string
  targetPath :: string
  skillName :: string
  sourceUrl :: string
  result_outputFormat :: string
  validationResult :: "ValidationResult option"
  error :: "string option"

text \<open>The result of the \<^verbatim>\<open>catch\<close> block of \<^verbatim>\<open>importSkillHandler\<close>.\<close>

definition import_failed :: "ImportSkillArgs \<Rightarrow> string \<Rightarrow> ImportSkillResult" where
  "import_failed args msg =
     \<lparr>success = False, result_content = [], filename = [], targetPath = [],
      skillName = arg_identifier args, sourceUrl = [], result_outputFormat = outputFormat args,
      validationResult = None, error = Some msg\<rparr>"

text \<open>\<^verbatim>\<open>importSkillHandler\<close>.\<close>

definition importSkillHandler :: "env \<Rightarrow> ImportSkillArgs \<Rightarrow> world \<Rightarrow> ImportSkillResult \<times> world" where
  "importSkillHandler e args w =
     (let w0 = enter ''import_skill'' (arg_identifier args) w in
      if blank (arg_identifier args) then (import_failed args ''Skill identifier is required'', w0)
      else if outputFormat args \<notin> set [''steering'', ''power'']
      then (import_failed args
              (''Output format must be '' @ quoted ''steering'' @ '' or '' @ quoted ''power''), w0)
      else
        case fetchSkillHandler e (arg_identifier args) w0 of
          (Inl err, w1) \<Rightarrow> (import_failed args (message err), w1)
        | (Inr fetchResult, w1) \<Rightarrow>
            (case (if skipValidation args \<noteq> Some True
                   then (case validateSkillHandler (fr_content fetchResult)
                                (fr_url fetchResult) w1 of
                           (Inl err, w2) \<Rightarrow> (Inl err, w2)
                         | (Inr v, w2) \<Rightarrow> (Inr (Some v), w2))
                   else (Inr None, w1)) of
               (Inl err, w2) \<Rightarrow> (import_failed args (message err), w2)
             | (Inr checked, w2) \<Rightarrow>
                 if (case checked of Some v \<Rightarrow> \<not> isValid v | None \<Rightarrow> False)
                 then (\<lparr>success = False, result_content = [], filename = [], targetPath = [],
                        skillName = arg_identifier args, sourceUrl = fr_url fetchResult,
                        result_outputFormat = outputFormat args,
                        validationResult = checked,
                        error = Some (''Security validation failed: '' @
                                  join_str '', ''
                                    (map description (issues (the checked))))\<rparr>,
                       w2)
                 else if outputFormat args = ''steering''
                 then (case convertToSteeringHandler e (fr_content fetchResult)
                              (fr_url fetchResult) w2 of
                         (Inl err, w3) \<Rightarrow> (import_failed args (message err), w3)
                       | (Inr convertResult, w3) \<Rightarrow>
                           (\<lparr>success = True, result_content = steeringContent convertResult,
                             filename = steering_filename convertResult,
                             targetPath = ''.kiro/steering/'' @ steering_filename convertResult,
                             skillName = steering_originalSkill convertResult,
                             sourceUrl = fr_url fetchResult,
                             result_outputFormat = outputFormat args,
                             validationResult = checked, error = None\<rparr>,
                            w3))
                 else (case convertToPowerHandler e (fr_content fetchResult)
                              (fr_url fetchResult) w2 of
                         (Inl err, w3) \<Rightarrow> (import_failed args (message err), w3)
                       | (Inr convertResult, w3) \<Rightarrow>
                           (\<lparr>success = True, result_content = powerContent convertResult,
                             filename = ''POWER.md'',
                             targetPath = ''~/.kiro/powers/'' @ converted_powerName convertResult
                                            @ ''/POWER.md'',
                             skillName = converted_powerName convertResult,
                             sourceUrl = fr_url fetchResult,
                             result_outputFormat = outputFormat args,
                             validationResult = checked, error = None\<rparr>,
                            w3))))"

section \<open>Auxiliary notions for the proofs\<close>

text \<open>No two hyphens in a row.\<close>

fun no_double :: "string \<Rightarrow> bool" where
  "no_double (c # d # r) = (\<not> (is_hyphen c \<and> is_hyphen d) \<and> no_double (d # r))"
| "no_double _ = True"

text \<open>
  The fence toggle read off the lines alone: its value after a list of lines, and the
  heading-shaped lines at which it is off, each as its level and its heading text, in
  order.
\<close>

definition toggle :: "bool \<Rightarrow> string \<Rightarrow> bool" where
  "toggle f line = (if is_fence_line line then \<not> f else f)"

definition fence_after :: "bool \<Rightarrow> string list \<Rightarrow> bool" where
  "fence_after f ls = foldl toggle f ls"

fun headings_from :: "bool \<Rightarrow> string list \<Rightarrow> (nat \<times> string) list" where
  "headings_from f [] = []"
| "headings_from f (l # ls) =
     (case (if toggle f l then None else header_match l) of
        Some (hashes, txt) \<Rightarrow> (length hashes, trim txt) # headings_from (toggle f l) ls
      | None \<Rightarrow> headings_from (toggle f l) ls)"

definition section_info :: "SkillSection \<Rightarrow> nat \<times> string" where
  "section_info s = (level s, heading s)"


text \<open>
  A loader for the examples: what \<^verbatim>\<open>yaml.load\<close> returns on the blocks used
  below, and an exception on every other text.
\<close>

definition sample_loader :: yaml_loader where
  "sample_loader y =
     (if y = ''name: Test\<newline>description: Demo''
      then Inr (YMap [(''name'', YStr ''Test''), (''description'', YStr ''Demo'')])
      else if y = ''name: '' @ quoted [] @ ''\<newline>description: Demo''
      then Inr (YMap [(''name'', YStr []), (''description'', YStr ''Demo'')])
      else if y = ''name: []\<newline>description: Demo''
      then Inr (YMap [(''name'', YSeq []), (''description'', YStr ''Demo'')])
      else if y = ''name: .nan\<newline>description: Demo''
      then Inr (YMap [(''name'', YNum NaN), (''description'', YStr ''Demo'')])
      else Inl ''unsupported'')"

text \<open>
  Networks, a clock, a directory and an environment for the examples: a network on which
  every request fails with status 500, one on which every request is answered 404, one on
  which a file exists on the branch \<^verbatim>\<open>master\<close> only, one on which a status 500 comes
  with a status text that mentions 404, and one that serves a skill with a dangerous
  command in it.
\<close>

definition start :: world where
  "start = \<lparr>requests = [], sleeps = [], ticks = 0, calls = []\<rparr>"

definition net_500 :: network where
  "net_500 n u = Response 500 ''Internal Server Error'' []"

definition net_404 :: network where
  "net_404 n u = Response 404 ''Not Found'' []"

definition net_500_text_404 :: network where
  "net_500_text_404 n u = Response 500 ''upstream said 404'' []"

definition net_master_only :: network where
  "net_master_only n u =
     (if includes_str u ''/master/'' then Response 200 ''OK'' ''# A skill''
      else Response 404 ''Not Found'' [])"

definition net_dangerous :: network where
  "net_dangerous n u = Response 200 ''OK'' ''# Cleanup\<newline>Run sudo rm -rf / first.''"

definition clock_zero :: clock where
  "clock_zero k = 0"

definition no_entries :: "string \<Rightarrow> SkillShEntry list" where
  "no_entries html = []"

definition pdf_directory :: "SkillShEntry list" where
  "pdf_directory =
     [\<lparr>name = ''pdf-extractor'', entry_owner = ''acme'', entry_repo = ''tools'',
       installs = 120, entry_description = None, trending = None\<rparr>,
      \<lparr>name = ''pdf'', entry_owner = ''anthropics'', entry_repo = ''skills'',
       installs = 30400, entry_description = None, trending = None\<rparr>]"

definition sample_steering :: "ParsedSkill \<Rightarrow> string \<Rightarrow> error + SteeringFile" where
  "sample_steering parsed u =
     Inr \<lparr>sf_filename = ''skill.md'', sf_content = body parsed, sf_originalSkill = ''skill'',
          sf_sourceUrl = u\<rparr>"

definition sample_power :: "ParsedSkill \<Rightarrow> string \<Rightarrow> error + PowerStructure" where
  "sample_power parsed u = Inr \<lparr>powerName = ''skill'', power_content = body parsed\<rparr>"

definition sample_env :: env where
  "sample_env =
     \<lparr>env_net = net_dangerous, env_clock = clock_zero, env_parseHTML = no_entries,
      env_yaml = sample_loader, env_toSteeringFile = sample_steering,
      env_toPower = sample_power\<rparr>"

text \<open>The message of the error that \<^verbatim>\<open>fetchUrl\<close> makes of a response, if it makes
  one.\<close>

definition failure_message :: "response \<Rightarrow> string option" where
  "failure_message r =
     (case r of
        Response st stt b \<Rightarrow>
          if response_ok st then None else Some (''HTTP '' @ show_nat st @ '': '' @ stt)
      | Failure msg \<Rightarrow> Some ''Failed to fetch URL'')"

definition not_found_error :: "string \<Rightarrow> nat \<Rightarrow> error" where
  "not_found_error u attempt =
     NetworkError ''Resource not found'' u (Some 404) attempt
       [(''message'', CStr ''The requested skill file does not exist'')]"

definition sample_coordinate :: ResolvedSkill where
  "sample_coordinate =
     \<lparr>owner = ''acme'', repo = ''agent-skills'', skillPath = ''skills/cleanup'',
      fullUrl = ''https://raw.githubusercontent.com/acme/agent-skills/main/skills/cleanup/SKILL.md'',
      source = github, metadata = None\<rparr>"

text \<open>Two import requests for the examples, one with validation and one without, and
  what the fetch returns for them from the network that serves the dangerous skill.\<close>

definition checked_request :: ImportSkillArgs where
  "checked_request =
     \<lparr>arg_identifier = ''acme/cleanup'', outputFormat = ''steering'', skipValidation = None\<rparr>"

definition skipping_request :: ImportSkillArgs where
  "skipping_request =
     \<lparr>arg_identifier = ''acme/cleanup'', outputFormat = ''power'', skipValidation = Some True\<rparr>"

definition fetched_sample :: FetchSkillResult where
  "fetched_sample =
     \<lparr>fr_content = ''# Cleanup\<newline>Run sudo rm -rf / first.'',
      fr_url = ''https://raw.githubusercontent.com/acme/agent-skills/main/skills/cleanup/SKILL.md'',
      fr_name = ''cleanup'', fr_owner = ''acme'', fr_repo = ''agent-skills'',
      fr_skillPath = ''skills/cleanup''\<rparr>"

definition fetched_world :: world where
  "fetched_world =
     \<lparr>requests =
        [''https://raw.githubusercontent.com/acme/agent-skills/main/skills/cleanup/SKILL.md''],
      sleeps = [], ticks = 0,
      calls = [(''import_skill'', ''acme/cleanup''), (''fetch_skill'', ''acme/cleanup'')]\<rparr>"

section \<open>Kebab case is idempotent\<close>

lemma replace_runs_id: "\<forall>c \<in> set s. \<not> p c \<Longrightarrow> replace_runs p r s = s"
  by (induction s) auto

lemma no_double_cons:
  "no_double t \<Longrightarrow> t = [] \<or> \<not> is_hyphen (hd t) \<Longrightarrow> no_double (c # t)"
  by (cases t) simp_all

lemma hd_replace_runs:
  "t = [] \<or> \<not> p (hd t) \<Longrightarrow> replace_runs p r t = [] \<or> \<not> p (hd (replace_runs p r t))"
  by (cases t) simp_all

lemma no_double_collapse: "no_double (replace_runs is_hyphen ''-'' s)"
proof (induction "length s" arbitrary: s rule: less_induct)
  case less
  show ?case
  proof (cases s)
    case Nil
    then show ?thesis by simp
  next
    case (Cons c cs)
    show ?thesis
    proof (cases "is_hyphen c")
      case True
      let ?t = "dropWhile is_hyphen cs"
      have "length ?t < length s" using Cons by (simp add: length_dropWhile_le less_Suc_eq_le)
      then have ih: "no_double (replace_runs is_hyphen ''-'' ?t)" by (rule less)
      have "?t = [] \<or> \<not> is_hyphen (hd ?t)" using hd_dropWhile by blast
      then have "replace_runs is_hyphen ''-'' ?t = [] \<or>
          \<not> is_hyphen (hd (replace_runs is_hyphen ''-'' ?t))"
        by (rule hd_replace_runs)
      with ih have "no_double (CHR ''-'' # replace_runs is_hyphen ''-'' ?t)"
        by (rule no_double_cons)
      then show ?thesis using Cons True by simp
    next
      case False
      have "length cs < length s" using Cons by simp
      then have ih: "no_double (replace_runs is_hyphen ''-'' cs)" by (rule less)
      have "no_double (c # replace_runs is_hyphen ''-'' cs)"
      proof (cases "replace_runs is_hyphen ''-'' cs")
        case Nil
        then show ?thesis by simp
      next
        case (Cons d ds)
        then show ?thesis using ih False by simp
      qed
      then show ?thesis using Cons False by simp
    qed
  qed
qed

lemma collapse_id: "no_double s \<Longrightarrow> replace_runs is_hyphen ''-'' s = s"
proof (induction s rule: no_double.induct)
  case (1 c d r)
  then show ?case by (auto simp: is_hyphen_def)
qed (auto simp: is_hyphen_def)

lemma no_double_suffix: "no_double (xs @ ys) \<Longrightarrow> no_double ys"
proof (induction xs)
  case Nil
  then show ?case by simp
next
  case (Cons a xs)
  then show ?case by (cases "xs @ ys") auto
qed

lemma no_double_prefix: "no_double (xs @ ys) \<Longrightarrow> no_double xs"
  by (induction xs rule: no_double.induct) auto

lemma strip_trailing_prefix: "s = rev (dropWhile p (rev s)) @ rev (takeWhile p (rev s))"
proof -
  have "rev (takeWhile p (rev s) @ dropWhile p (rev s)) = rev (rev s)"
    by (simp only: takeWhile_dropWhile_id)
  then show ?thesis by (simp only: rev_append rev_rev_ident)
qed

lemma no_double_strip: "no_double s \<Longrightarrow> no_double (strip_hyphens s)"
proof -
  assume a: "no_double s"
  let ?t = "dropWhile is_hyphen s"
  have "no_double (takeWhile is_hyphen s @ ?t)" using a by simp
  then have t: "no_double ?t" by (rule no_double_suffix)
  have "no_double (rev (dropWhile is_hyphen (rev ?t)) @ rev (takeWhile is_hyphen (rev ?t)))"
    using t strip_trailing_prefix[of ?t is_hyphen] by simp
  then show ?thesis unfolding strip_hyphens_def by (rule no_double_prefix)
qed

lemma strip_ends_shape:
  "rev (dropWhile p (rev (dropWhile p t))) = [] \<or>
   (\<not> p (hd (rev (dropWhile p (rev (dropWhile p t))))) \<and>
    \<not> p (last (rev (dropWhile p (rev (dropWhile p t))))))"
proof -
  let ?u = "dropWhile p t"
  let ?v = "dropWhile p (rev ?u)"
  show ?thesis
  proof (cases "?v = []")
    case True
    then show ?thesis by simp
  next
    case False
    have l: "\<not> p (hd ?v)" using False hd_dropWhile by blast
    have un: "?u \<noteq> []" using False by (metis dropWhile.simps(1) rev.simps(1))
    have hu: "\<not> p (hd ?u)" using un hd_dropWhile by blast
    have "?u = rev ?v @ rev (takeWhile p (rev ?u))"
      by (rule strip_trailing_prefix)
    then have "hd ?u = hd (rev ?v)" using False by (metis hd_append2 rev_is_Nil_conv)
    then show ?thesis using l hu False by (simp add: last_rev)
  qed
qed

lemma strip_ends_id:
  assumes "s = [] \<or> (\<not> p (hd s) \<and> \<not> p (last s))"
  shows "rev (dropWhile p (rev (dropWhile p s))) = s"
proof (cases s)
  case Nil
  then show ?thesis by simp
next
  case (Cons c cs)
  with assms have h: "\<not> p c" and l: "\<not> p (last s)" by auto
  have 1: "dropWhile p s = s" using Cons h by simp
  obtain x xs where x: "rev s = x # xs" using Cons by (cases "rev s") auto
  have "hd (rev s) = last s" using Cons by (simp add: hd_rev)
  then have "x = last s" by (simp add: x)
  then have "dropWhile p (x # xs) = x # xs" using l by simp
  then have 2: "dropWhile p (rev s) = rev s" by (simp only: x)
  show ?thesis by (simp only: 1 2 rev_rev_ident)
qed

lemma kebab_chars: "\<forall>c \<in> set (toKebabCase s). is_kebab_char c"
proof -
  have a: "\<forall>c \<in> set t. is_kebab_char c \<Longrightarrow>
      \<forall>c \<in> set (replace_runs is_hyphen ''-'' t). is_kebab_char c" for t
    by (induction is_hyphen "''-''" t rule: replace_runs.induct)
       (auto simp: is_kebab_char_def dest: set_dropWhileD)
  have b: "set (strip_hyphens t) \<subseteq> set t" for t
    unfolding strip_hyphens_def by (auto dest!: set_dropWhileD)
  let ?f = "filter is_kebab_char
     (replace_runs (\<lambda>c. is_space c \<or> c = CHR ''_'') ''-'' (toLowerCase (trim s)))"
  have "\<forall>c \<in> set ?f. is_kebab_char c" by simp
  then have "\<forall>c \<in> set (replace_runs is_hyphen ''-'' ?f). is_kebab_char c" by (rule a)
  then show ?thesis unfolding toKebabCase_def using b by blast
qed

lemma kebab_ends:
  "toKebabCase s = [] \<or>
   (\<not> is_hyphen (hd (toKebabCase s)) \<and> \<not> is_hyphen (last (toKebabCase s)))"
  unfolding toKebabCase_def strip_hyphens_def by (rule strip_ends_shape)

lemma kebab_no_double: "no_double (toKebabCase s)"
  unfolding toKebabCase_def by (rule no_double_strip) (rule no_double_collapse)

lemma kebab_char_facts:
  "is_kebab_char c \<Longrightarrow> \<not> is_space c \<and> c \<noteq> CHR ''_'' \<and> lower_char c = c"
  by (auto simp: is_kebab_char_def is_space_def lower_char_def Let_def)

text \<open>
  Claim C8. \<^verbatim>\<open>toKebabCase\<close> is idempotent: for every string \<open>s\<close>, converting the
  kebab-cased form of \<open>s\<close> again gives the same string.
\<close>

theorem toKebabCase_idempotent: "toKebabCase (toKebabCase s) = toKebabCase s"
proof -
  let ?t = "toKebabCase s"
  have ch: "\<forall>c \<in> set ?t. is_kebab_char c" by (rule kebab_chars)
  have ends: "?t = [] \<or> (\<not> is_hyphen (hd ?t) \<and> \<not> is_hyphen (last ?t))" by (rule kebab_ends)
  have sp: "?t = [] \<or> (\<not> is_space (hd ?t) \<and> \<not> is_space (last ?t))"
    using ch kebab_char_facts by (cases "?t = []") auto
  have 1: "trim ?t = ?t" unfolding trim_def using sp by (rule strip_ends_id)
  have 2: "toLowerCase ?t = ?t"
    unfolding toLowerCase_def using ch kebab_char_facts by (simp add: map_idI)
  have 3: "replace_runs (\<lambda>c. is_space c \<or> c = CHR ''_'') ''-'' ?t = ?t"
    using ch kebab_char_facts by (intro replace_runs_id) blast
  have 4: "filter is_kebab_char ?t = ?t" using ch by simp
  have 5: "replace_runs is_hyphen ''-'' ?t = ?t" using kebab_no_double by (rule collapse_id)
  have 6: "strip_hyphens ?t = ?t" unfolding strip_hyphens_def using ends by (rule strip_ends_id)
  have "toKebabCase ?t = strip_hyphens (replace_runs is_hyphen ''-'' (filter is_kebab_char
          (replace_runs (\<lambda>c. is_space c \<or> c = CHR ''_'') ''-'' (toLowerCase (trim ?t)))))"
    by (simp only: toKebabCase_def[of ?t])
  then show ?thesis by (simp only: 1 2 3 4 5 6)
qed

section \<open>The severity rule of the validator\<close>

lemma startsWith_append: "startsWith s p \<Longrightarrow> \<exists>q. s = p @ q"
  by (induction s p rule: startsWith.induct) auto

lemma matchAll_hit: "rx_exec r (b, a) \<noteq> None \<Longrightarrow> matchAll r (b, a) \<noteq> []"
  by (subst matchAll.simps) (auto split: option.splits)

lemma matchAll_miss: "rx_exec r (b, c # cs) = None \<Longrightarrow> matchAll r (b, c # cs) = matchAll r (c # b, cs)"
  by (subst matchAll.simps) simp

lemma rm_rf_matches_here:
  "rx_exec (Cat (lit_ci ''rm'') (Cat (plus_rx is_space) (lit_ci ''-rf''))) (b, ''rm -rf /'' @ q) \<noteq> None"
  by (simp add: rx_exec_def lit_ci_def plus_rx_def lower_char_def is_space_def)

lemma rm_rf_found:
  "includes_str a ''rm -rf /'' \<Longrightarrow>
   matchAll (Cat (lit_ci ''rm'') (Cat (plus_rx is_space) (lit_ci ''-rf''))) (b, a) \<noteq> []"
proof (induction a arbitrary: b)
  case Nil
  then show ?case by simp
next
  case (Cons c cs)
  let ?r = "Cat (lit_ci ''rm'') (Cat (plus_rx is_space) (lit_ci ''-rf''))"
  show ?case
  proof (cases "rx_exec ?r (b, c # cs)")
    case (Some e)
    then show ?thesis by (intro matchAll_hit) simp
  next
    case None
    have "\<not> startsWith (c # cs) ''rm -rf /''"
    proof
      assume "startsWith (c # cs) ''rm -rf /''"
      then obtain q where "c # cs = ''rm -rf /'' @ q" using startsWith_append by blast
      then show False using None rm_rf_matches_here[of b q] by simp
    qed
    then have "includes_str cs ''rm -rf /''" using Cons.prems by auto
    then have "matchAll ?r (c # b, cs) \<noteq> []" by (rule Cons.IH)
    then show ?thesis using None by (simp add: matchAll_miss)
  qed
qed

lemma scanWith_type: "i \<in> set (scanWith ty table txt0) \<Longrightarrow> type i = ty"
  by (auto simp: scanWith_def)

lemma dangerous_found:
  "includes_str txt0 ''rm -rf /'' \<Longrightarrow> scanForDangerousPatterns txt0 \<noteq> []"
  using rm_rf_found[of txt0 "[]"]
  by (auto simp: scanForDangerousPatterns_def scanWith_def DANGEROUS_PATTERNS_def)

lemma determineSeverity_cases:
  "(determineSeverity iss = safe \<longleftrightarrow> iss = []) \<and>
   (determineSeverity iss = unsafe \<longleftrightarrow>
      (\<exists>i \<in> set iss. type i = untrusted_source \<or> type i = dangerous_command)) \<and>
   (determineSeverity iss = warning \<longleftrightarrow>
      iss \<noteq> [] \<and> (\<forall>i \<in> set iss. type i = suspicious_pattern))"
proof -
  have t: "ty = suspicious_pattern \<longleftrightarrow> ty \<noteq> untrusted_source \<and> ty \<noteq> dangerous_command" for ty
    by (cases ty) auto
  show ?thesis
    by (cases "iss = []") (auto simp: determineSeverity_def Let_def list_ex_iff t)
qed

text \<open>
  Claim C1. For every input, \<^verbatim>\<open>validate\<close> returns severity \<open>safe\<close> exactly when the
  issue list is empty, \<open>unsafe\<close> exactly when some issue is an untrusted source or a
  dangerous command, and \<open>warning\<close> exactly when there are issues and all of them are
  suspicious patterns; \<open>isValid\<close> holds exactly when the severity is not \<open>unsafe\<close>. A text
  that contains \<^verbatim>\<open>rm -rf /\<close>, coming from a URL that does not start with the trusted
  prefix, is \<open>unsafe\<close> with at least two issues, one of them a dangerous command and one an
  untrusted source.
\<close>

theorem validate_severity_rule:
  "(severity (validate c) = safe \<longleftrightarrow> issues (validate c) = []) \<and>
   (severity (validate c) = unsafe \<longleftrightarrow>
      (\<exists>i \<in> set (issues (validate c)). type i = untrusted_source \<or> type i = dangerous_command)) \<and>
   (severity (validate c) = warning \<longleftrightarrow>
      issues (validate c) \<noteq> [] \<and> (\<forall>i \<in> set (issues (validate c)). type i = suspicious_pattern)) \<and>
   (isValid (validate c) \<longleftrightarrow> severity (validate c) \<noteq> unsafe) \<and>
   (includes_str (raw c) ''rm -rf /'' \<and> \<not> startsWith (url c) ''https://raw.githubusercontent.com/'' \<longrightarrow>
      severity (validate c) = unsafe \<and> 2 \<le> length (issues (validate c)) \<and>
      (\<exists>i \<in> set (issues (validate c)). type i = dangerous_command) \<and>
      (\<exists>i \<in> set (issues (validate c)). type i = untrusted_source))"
proof -
  let ?iss = "issues (validate c)"
  have sev: "severity (validate c) = determineSeverity ?iss"
    by (simp add: validate_def Let_def)
  have val: "isValid (validate c) \<longleftrightarrow> severity (validate c) \<noteq> unsafe"
    by (simp add: validate_def Let_def)
  have part: "severity (validate c) = unsafe \<and> 2 \<le> length ?iss \<and>
      (\<exists>i \<in> set ?iss. type i = dangerous_command) \<and> (\<exists>i \<in> set ?iss. type i = untrusted_source)"
    if h: "includes_str (raw c) ''rm -rf /''" "\<not> startsWith (url c) ''https://raw.githubusercontent.com/''"
  proof -
    obtain d ds where d: "scanForDangerousPatterns (raw c) = d # ds"
      using dangerous_found[OF h(1)] by (cases "scanForDangerousPatterns (raw c)") auto
    have "d \<in> set (scanWith dangerous_command DANGEROUS_PATTERNS (raw c))"
      using d by (simp add: scanForDangerousPatterns_def)
    then have td: "type d = dangerous_command" by (rule scanWith_type)
    obtain rest where iss: "?iss =
        \<lparr>type = untrusted_source,
         description = ''Content does not originate from trusted GitHub domain'',
         location = url c\<rparr> # d # rest"
      using h(2) d by (simp add: validate_def Let_def isUrlTrusted_def)
    have "\<exists>i \<in> set ?iss. type i = dangerous_command" using iss td by auto
    moreover have "\<exists>i \<in> set ?iss. type i = untrusted_source" using iss by auto
    moreover have "2 \<le> length ?iss" using iss by simp
    moreover have "determineSeverity ?iss = unsafe"
      using determineSeverity_cases[of ?iss] calculation by blast
    ultimately show ?thesis using sev by simp
  qed
  show ?thesis using determineSeverity_cases[of ?iss] sev val part by simp
qed

theorem validate_severity_rule_witness:
  "includes_str ''sudo rm -rf / --no-preserve-root'' ''rm -rf /'' \<and>
   \<not> startsWith ''http://example.com/SKILL.md'' ''https://raw.githubusercontent.com/'' \<and>
   severity (validate \<lparr>raw = ''sudo rm -rf / --no-preserve-root'',
                       url = ''http://example.com/SKILL.md''\<rparr>) = unsafe \<and>
   \<not> isValid (validate \<lparr>raw = ''sudo rm -rf / --no-preserve-root'',
                       url = ''http://example.com/SKILL.md''\<rparr>) \<and>
   2 \<le> length (issues (validate \<lparr>raw = ''sudo rm -rf / --no-preserve-root'',
                       url = ''http://example.com/SKILL.md''\<rparr>))"
  using validate_severity_rule
    [of "\<lparr>raw = ''sudo rm -rf / --no-preserve-root'', url = ''http://example.com/SKILL.md''\<rparr>"]
  by simp

section \<open>Section splitting and fenced code blocks\<close>

lemma split_nl_simps [simp]:
  "split_nl [] = [[]]"
  "split_nl (c # cs) =
     (if c = newline then [] # split_nl cs
      else (case split_nl cs of [] \<Rightarrow> [[c]] | l # ls \<Rightarrow> (c # l) # ls))"
  by (simp_all add: split_nl_def)

lemma split_nl_nonempty: "split_nl s \<noteq> []"
  by (induction s) (auto split: list.splits)

lemma join_split_nl: "join_nl (split_nl s) = s"
proof (induction s)
  case Nil
  then show ?case by (simp add: join_nl_def)
next
  case (Cons c cs)
  obtain l ls where l: "split_nl cs = l # ls"
    using split_nl_nonempty[of cs] by (cases "split_nl cs") auto
  show ?case
  proof (cases "c = newline")
    case True
    then show ?thesis using Cons l by (simp add: join_nl_def)
  next
    case False
    then show ?thesis using Cons l by (cases ls) (simp_all add: join_nl_def)
  qed
qed

lemma split_nl_no_newline: "l \<in> set (split_nl s) \<Longrightarrow> newline \<notin> set l"
proof (induction s arbitrary: l)
  case Nil
  then show ?case by simp
next
  case (Cons c cs)
  obtain m ms where m: "split_nl cs = m # ms"
    using split_nl_nonempty[of cs] by (cases "split_nl cs") auto
  show ?case
  proof (cases "c = newline")
    case True
    then show ?thesis using Cons by auto
  next
    case False
    then have "l = c # m \<or> l \<in> set ms" using Cons.prems m by simp
    then show ?thesis using False Cons.IH m by auto
  qed
qed

lemma split_nl_line: "newline \<notin> set l \<Longrightarrow> split_nl l = [l]"
  by (induction l) auto

lemma split_nl_append_line:
  "newline \<notin> set l \<Longrightarrow> split_nl (l @ newline # s) = l # split_nl s"
  by (induction l) auto

lemma split_join_nl:
  "ls \<noteq> [] \<Longrightarrow> \<forall>l \<in> set ls. newline \<notin> set l \<Longrightarrow> split_nl (join_nl ls) = ls"
proof (induction "[newline]" ls rule: join_str.induct)
  case 1
  then show ?case by simp
next
  case (2 l)
  then show ?case by (simp add: join_nl_def split_nl_line)
next
  case (3 l m ls)
  then show ?case using split_nl_append_line[of l "join_str [newline] (m # ls)"]
    by (simp add: join_nl_def)
qed

lemma header_match_hash: "header_match l = Some g \<Longrightarrow> startsWith l ''#''"
proof (cases l)
  case Nil
  assume "header_match l = Some g"
  then show ?thesis using Nil by (simp add: header_match_def)
next
  case (Cons c cs)
  assume h: "header_match l = Some g"
  have "c = CHR ''#''"
  proof (rule ccontr)
    assume "c \<noteq> CHR ''#''"
    then have "header_match l = None" using Cons by (simp add: header_match_def is_hash_def)
    then show False using h by simp
  qed
  then show ?thesis using Cons by simp
qed

lemma trim_hash: "startsWith l ''#'' \<Longrightarrow> startsWith (trim l) ''#''"
proof -
  assume "startsWith l ''#''"
  then obtain cs where l: "l = CHR ''#'' # cs" by (cases l) auto
  have ns: "\<not> is_space (CHR ''#'')" by (simp add: is_space_def)
  then have d: "dropWhile is_space l = l" using l by simp
  let ?t = "rev (dropWhile is_space (rev l))"
  have pre: "l = ?t @ rev (takeWhile is_space (rev l))" by (rule strip_trailing_prefix)
  have "?t \<noteq> []"
  proof
    assume "?t = []"
    then have "\<forall>x \<in> set (rev l). is_space x" by (simp add: dropWhile_eq_Nil_conv)
    then show False using l ns by simp
  qed
  then have "hd ?t = hd l" using pre by (metis hd_append2)
  then have "hd ?t = CHR ''#''" using l by simp
  then have "startsWith ?t ''#''" using \<open>?t \<noteq> []\<close> by (cases ?t) auto
  then show ?thesis by (simp only: trim_def d)
qed

lemma fence_not_header: "is_fence_line l \<Longrightarrow> header_match l = None"
proof (rule ccontr)
  assume f: "is_fence_line l" and "header_match l \<noteq> None"
  then obtain g where "header_match l = Some g" by auto
  then have "startsWith (trim l) ''#''" using header_match_hash trim_hash by blast
  then show False using f by (cases "trim l") (auto simp: is_fence_line_def)
qed

lemma section_step_plain:
  "(if toggle f l then None else header_match l) = None \<Longrightarrow>
   section_step (secs, cur, cc, f) l = (secs, cur, cc @ [l], toggle f l)"
  by (simp add: toggle_def Let_def split: if_splits)

lemma section_step_heading:
  "(if toggle f l then None else header_match l) = Some (hs, tx) \<Longrightarrow>
   section_step (secs, cur, cc, f) l =
     ((case cur of Some s \<Rightarrow> secs @ [s\<lparr>content := trim (join_nl cc)\<rparr>] | None \<Rightarrow> secs),
      Some \<lparr>heading = trim tx, content = [], level = length hs\<rparr>, [], toggle f l)"
  by (simp add: toggle_def Let_def split: if_splits)

declare section_step.simps [simp del]

lemma scan_no_headings:
  "headings_from f ls = [] \<Longrightarrow>
   foldl section_step (secs, cur, cc, f) ls = (secs, cur, cc @ ls, fence_after f ls)"
proof (induction ls arbitrary: cc f)
  case Nil
  then show ?case by (simp add: fence_after_def)
next
  case (Cons l ls)
  have n: "(if toggle f l then None else header_match l) = None"
    using Cons.prems by (cases "if toggle f l then None else header_match l") auto
  then have r: "headings_from (toggle f l) ls = []" using Cons.prems by simp
  have "foldl section_step (secs, cur, cc, f) (l # ls) =
        foldl section_step (secs, cur, cc @ [l], toggle f l) ls"
    using section_step_plain[OF n] by simp
  also have "\<dots> = (secs, cur, (cc @ [l]) @ ls, fence_after (toggle f l) ls)"
    using r by (rule Cons.IH)
  finally show ?case by (simp add: fence_after_def)
qed

lemma headings_from_append:
  "headings_from f (xs @ ys) = headings_from f xs @ headings_from (fence_after f xs) ys"
  by (induction xs arbitrary: f) (auto simp: fence_after_def split: option.splits)

lemma fence_after_append: "fence_after f (xs @ ys) = fence_after (fence_after f xs) ys"
  by (simp add: fence_after_def)

lemma plain_lines:
  "\<forall>l \<in> set ls. \<not> is_fence_line l \<and> \<not> startsWith l ''#'' \<Longrightarrow>
   headings_from f ls = [] \<and> fence_after f ls = f"
proof (induction ls)
  case Nil
  then show ?case by (simp add: fence_after_def)
next
  case (Cons l ls)
  have h: "header_match l = None"
    using Cons.prems header_match_hash[of l] by (cases "header_match l") auto
  have t: "toggle f l = f" using Cons.prems by (simp add: toggle_def)
  have 1: "headings_from f (l # ls) = headings_from f ls"
    by (subst headings_from.simps) (simp only: t h if_cancel option.case)
  have 2: "fence_after f (l # ls) = fence_after f ls" by (simp add: fence_after_def t)
  show ?case using Cons by (simp only: 1 2) simp
qed

lemma fenced_lines:
  "\<forall>l \<in> set ls. \<not> is_fence_line l \<Longrightarrow>
   headings_from True ls = [] \<and> fence_after True ls = True"
  by (induction ls) (simp_all add: fence_after_def toggle_def)

lemma sections_info_general:
  "map section_info (finish_sections (foldl section_step (secs, cur, cc, f) ls)) =
   map section_info secs @
   (case cur of
      Some s \<Rightarrow> section_info s # headings_from f ls
    | None \<Rightarrow>
        if headings_from f ls = []
        then (if cc @ ls = [] then [] else [(1, ''Content'')])
        else headings_from f ls)"
proof (induction ls arbitrary: secs cur cc f)
  case Nil
  then show ?case by (cases cur) (simp_all add: section_info_def)
next
  case (Cons l ls)
  show ?case
  proof (cases "if toggle f l then None else header_match l")
    case None
    have "foldl section_step (secs, cur, cc, f) (l # ls) =
          foldl section_step (secs, cur, cc @ [l], toggle f l) ls"
      using section_step_plain[OF None] by simp
    then show ?thesis using None Cons.IH[of secs cur "cc @ [l]" "toggle f l"]
      by (cases cur) simp_all
  next
    case (Some g)
    obtain hs tx where g: "g = (hs, tx)" by (cases g)
    let ?secs = "case cur of Some s \<Rightarrow> secs @ [s\<lparr>content := trim (join_nl cc)\<rparr>] | None \<Rightarrow> secs"
    let ?new = "\<lparr>heading = trim tx, content = [], level = length hs\<rparr>"
    have "foldl section_step (secs, cur, cc, f) (l # ls) =
          foldl section_step (?secs, Some ?new, [], toggle f l) ls"
      using section_step_heading[of f l hs tx secs cur cc] Some g by simp
    then have "map section_info (finish_sections (foldl section_step (secs, cur, cc, f) (l # ls))) =
        map section_info ?secs @ section_info ?new # headings_from (toggle f l) ls"
      using Cons.IH[of ?secs "Some ?new" "[]" "toggle f l"] by simp
    moreover have "headings_from f (l # ls) = (length hs, trim tx) # headings_from (toggle f l) ls"
      using Some g by simp
    moreover have "section_info ?new = (length hs, trim tx)" by (simp add: section_info_def)
    moreover have "section_info (s\<lparr>content := c\<rparr>) = section_info s" for s c
      by (simp add: section_info_def)
    ultimately show ?thesis by (cases cur) simp_all
  qed
qed

lemma no_headings_one_section:
  assumes "headings_from False (split_nl b) = []"
  shows "extractSections b = [\<lparr>heading = ''Content'', content = trim b, level = 1\<rparr>]"
proof -
  have "foldl section_step ([], None, [], False) (split_nl b) =
        ([], None, [] @ split_nl b, fence_after False (split_nl b))"
    using assms by (rule scan_no_headings)
  then show ?thesis
    using split_nl_nonempty[of b]
    by (simp add: extractSections_def sections_of_lines_def join_split_nl)
qed

text \<open>
  Claim C7. Section splitting starts a new section only at a heading-shaped line at which
  the fence toggle is off: the sections of a body are, in order, the headings of exactly
  those lines (and one synthetic section when there is none). For a body in which the
  only lines starting with \<^verbatim>\<open>#\<close> lie inside a single fence, the result is exactly
  one section, whose content is the whole trimmed body, fence included.
\<close>

theorem sections_respect_fences:
  "map section_info (extractSections b) =
     (if headings_from False (split_nl b) = [] then [(1, ''Content'')]
      else headings_from False (split_nl b)) \<and>
   (split_nl b = pre @ [opening] @ inner @ [closing] @ post \<and>
    is_fence_line opening \<and> is_fence_line closing \<and>
    (\<forall>l \<in> set inner. \<not> is_fence_line l) \<and>
    (\<forall>l \<in> set pre \<union> set post. \<not> is_fence_line l \<and> \<not> startsWith l ''#'') \<longrightarrow>
    extractSections b = [\<lparr>heading = ''Content'', content = trim b, level = 1\<rparr>])"
proof (intro conjI impI)
  show "map section_info (extractSections b) =
     (if headings_from False (split_nl b) = [] then [(1, ''Content'')]
      else headings_from False (split_nl b))"
    using sections_info_general[of "[]" None "[]" False "split_nl b"] split_nl_nonempty[of b]
    by (simp add: extractSections_def sections_of_lines_def)
next
  assume a: "split_nl b = pre @ [opening] @ inner @ [closing] @ post \<and>
    is_fence_line opening \<and> is_fence_line closing \<and>
    (\<forall>l \<in> set inner. \<not> is_fence_line l) \<and>
    (\<forall>l \<in> set pre \<union> set post. \<not> is_fence_line l \<and> \<not> startsWith l ''#'')"
  have p1: "headings_from False pre = [] \<and> fence_after False pre = False"
    using a by (intro plain_lines) simp
  have p2: "headings_from False [opening] = [] \<and> fence_after False [opening] = True"
    using a by (simp add: fence_after_def toggle_def)
  have p3: "headings_from True inner = [] \<and> fence_after True inner = True"
    using a by (intro fenced_lines) simp
  have p4: "headings_from True [closing] = [] \<and> fence_after True [closing] = False"
    using a fence_not_header[of closing] by (simp add: fence_after_def toggle_def)
  have p5: "headings_from False post = []"
    using a plain_lines[of post False] by simp
  have "headings_from False (pre @ [opening] @ inner @ [closing] @ post) = []"
    by (simp only: headings_from_append fence_after_append p1 p2 p3 p4 p5 append_Nil)
  then have "headings_from False (split_nl b) = []" using a by simp
  then show "extractSections b = [\<lparr>heading = ''Content'', content = trim b, level = 1\<rparr>]"
    by (rule no_headings_one_section)
qed

theorem sections_respect_fences_witness:
  "split_nl ''Intro\<newline>```sh\<newline># not a heading\<newline>```\<newline>Outro'' =
     [''Intro''] @ [''```sh''] @ [''# not a heading''] @ [''```''] @ [''Outro''] \<and>
   is_fence_line ''```sh'' \<and> is_fence_line ''```'' \<and>
   \<not> is_fence_line ''# not a heading'' \<and>
   \<not> is_fence_line ''Intro'' \<and> \<not> startsWith ''Intro'' ''#'' \<and>
   \<not> is_fence_line ''Outro'' \<and> \<not> startsWith ''Outro'' ''#'' \<and>
   header_match ''# not a heading'' = Some (''#'', ''not a heading'') \<and>
   extractSections ''Intro\<newline>```sh\<newline># not a heading\<newline>```\<newline>Outro'' =
     [\<lparr>heading = ''Content'',
       content = ''Intro\<newline>```sh\<newline># not a heading\<newline>```\<newline>Outro'',
       level = 1\<rparr>]"
proof -
  have e: "split_nl ''Intro\<newline>```sh\<newline># not a heading\<newline>```\<newline>Outro'' =
     [''Intro''] @ [''```sh''] @ [''# not a heading''] @ [''```''] @ [''Outro''] \<and>
   is_fence_line ''```sh'' \<and> is_fence_line ''```'' \<and>
   \<not> is_fence_line ''# not a heading'' \<and>
   \<not> is_fence_line ''Intro'' \<and> \<not> startsWith ''Intro'' ''#'' \<and>
   \<not> is_fence_line ''Outro'' \<and> \<not> startsWith ''Outro'' ''#'' \<and>
   header_match ''# not a heading'' = Some (''#'', ''not a heading'') \<and>
   trim ''Intro\<newline>```sh\<newline># not a heading\<newline>```\<newline>Outro'' =
     ''Intro\<newline>```sh\<newline># not a heading\<newline>```\<newline>Outro''"
    by code_simp
  show ?thesis
    using e sections_respect_fences
      [of "''Intro\<newline>```sh\<newline># not a heading\<newline>```\<newline>Outro''"
          "[''Intro'']" "''```sh''" "[''# not a heading'']" "''```''" "[''Outro'']"]
    by simp
qed

section \<open>Text before the first heading\<close>

lemma trim_idem: "trim (trim s) = trim s"
  unfolding trim_def by (rule strip_ends_id) (rule strip_ends_shape)

lemma parseSkill_sections:
  "parseSkill yaml_load src = Inr doc \<Longrightarrow>
   sections doc = extractSections (body doc) \<and> trim (body doc) = body doc"
  by (auto simp: parseSkill_def Let_def trim_idem split: if_splits option.splits sum.splits)

lemma scan_from_first_heading:
  assumes "headings_from False pre = []" and "\<not> fence_after False pre"
    and "header_match h \<noteq> None"
  shows "sections_of_lines (pre @ h # rest) = sections_of_lines (h # rest)"
proof -
  obtain hs tx where g: "header_match h = Some (hs, tx)" using assms(3) by auto
  have nf: "\<not> is_fence_line h" using fence_not_header[of h] g by auto
  then have t: "toggle False h = False" by (simp add: toggle_def)
  have hd: "(if toggle False h then None else header_match h) = Some (hs, tx)"
    using t g by simp
  let ?new = "\<lparr>heading = trim tx, content = [], level = length hs\<rparr>"
  have a: "section_step ([], None, pre, False) h = ([], Some ?new, [], False)"
    using section_step_heading[OF hd, of "[]" None pre] t by simp
  have b: "section_step ([], None, [], False) h = ([], Some ?new, [], False)"
    using section_step_heading[OF hd, of "[]" None "[]"] t by simp
  have "foldl section_step ([], None, [], False) pre = ([], None, [] @ pre, fence_after False pre)"
    using assms(1) by (rule scan_no_headings)
  then have c: "foldl section_step ([], None, [], False) pre = ([], None, pre, False)"
    using assms(2) by simp
  show ?thesis by (simp add: sections_of_lines_def c a b)
qed

text \<open>
  Claim C10. When the body of a parsed document has a heading line outside a fence, the
  lines before the first such heading take no part in the sections: the sections are
  those of the body from that heading on, while the body field still holds the lines
  before it. The whole body is wrapped in one synthetic section when there is no such
  heading, and only then: otherwise the sections are the headings.
\<close>

theorem preamble_in_no_section:
  "parseSkill yaml_load src = Inr doc \<Longrightarrow>
   (split_nl (body doc) = pre @ h # rest \<and> headings_from False pre = [] \<and>
    \<not> fence_after False pre \<and> header_match h \<noteq> None \<longrightarrow>
      sections doc = extractSections (join_nl (h # rest)) \<and>
      body doc = join_nl (pre @ h # rest)) \<and>
   (headings_from False (split_nl (body doc)) = [] \<longrightarrow>
      sections doc = [\<lparr>heading = ''Content'', content = body doc, level = 1\<rparr>]) \<and>
   (headings_from False (split_nl (body doc)) \<noteq> [] \<longrightarrow>
      map section_info (sections doc) = headings_from False (split_nl (body doc)))"
proof -
  assume p: "parseSkill yaml_load src = Inr doc"
  have s: "sections doc = extractSections (body doc)" and tb: "trim (body doc) = body doc"
    using parseSkill_sections[OF p] by auto
  have 1: "sections doc = extractSections (join_nl (h # rest)) \<and>
      body doc = join_nl (pre @ h # rest)"
    if a: "split_nl (body doc) = pre @ h # rest \<and> headings_from False pre = [] \<and>
      \<not> fence_after False pre \<and> header_match h \<noteq> None"
  proof -
    have "\<forall>l \<in> set (pre @ h # rest). newline \<notin> set l"
      using a split_nl_no_newline[of _ "body doc"] by auto
    then have "split_nl (join_nl (h # rest)) = h # rest"
      by (intro split_join_nl) auto
    then have "extractSections (join_nl (h # rest)) = sections_of_lines (h # rest)"
      by (simp add: extractSections_def)
    moreover have "extractSections (body doc) = sections_of_lines (pre @ h # rest)"
      using a by (simp add: extractSections_def)
    moreover have "sections_of_lines (pre @ h # rest) = sections_of_lines (h # rest)"
      using a by (intro scan_from_first_heading) auto
    moreover have "body doc = join_nl (pre @ h # rest)"
      using a join_split_nl[of "body doc"] by simp
    ultimately show ?thesis using s by simp
  qed
  have 2: "sections doc = [\<lparr>heading = ''Content'', content = body doc, level = 1\<rparr>]"
    if "headings_from False (split_nl (body doc)) = []"
    using no_headings_one_section[OF that] s tb by simp
  have 3: "map section_info (sections doc) = headings_from False (split_nl (body doc))"
    if "headings_from False (split_nl (body doc)) \<noteq> []"
    using sections_info_general[of "[]" None "[]" False "split_nl (body doc)"] that s
    by (simp add: extractSections_def sections_of_lines_def)
  show ?thesis using 1 2 3 by blast
qed

theorem preamble_in_no_section_witness:
  "parseSkill sample_loader
     ''---\<newline>name: Test\<newline>description: Demo\<newline>---\<newline>\<newline>Some notes first.\<newline># Test\<newline>\<newline>Body'' =
   Inr \<lparr>frontmatter = YMap [(''name'', YStr ''Test''), (''description'', YStr ''Demo'')],
        body = ''Some notes first.\<newline># Test\<newline>\<newline>Body'',
        sections = [\<lparr>heading = ''Test'', content = ''Body'', level = 1\<rparr>]\<rparr> \<and>
   split_nl ''Some notes first.\<newline># Test\<newline>\<newline>Body'' =
     [''Some notes first.''] @ ''# Test'' # [[], ''Body''] \<and>
   headings_from False [''Some notes first.''] = [] \<and>
   \<not> fence_after False [''Some notes first.''] \<and>
   header_match ''# Test'' \<noteq> None \<and>
   headings_from False (split_nl ''Some notes first.\<newline># Test\<newline>\<newline>Body'') \<noteq> [] \<and>
   [\<lparr>heading = ''Test'', content = ''Body'', level = 1\<rparr>] =
     extractSections (join_nl (''# Test'' # [[], ''Body''])) \<and>
   ''Some notes first.\<newline># Test\<newline>\<newline>Body'' =
     join_nl ([''Some notes first.''] @ ''# Test'' # [[], ''Body'']) \<and>
   map section_info [\<lparr>heading = ''Test'', content = ''Body'', level = 1\<rparr>] =
     headings_from False (split_nl ''Some notes first.\<newline># Test\<newline>\<newline>Body'')"
proof -
  have p: "parseSkill sample_loader
     ''---\<newline>name: Test\<newline>description: Demo\<newline>---\<newline>\<newline>Some notes first.\<newline># Test\<newline>\<newline>Body'' =
   Inr \<lparr>frontmatter = YMap [(''name'', YStr ''Test''), (''description'', YStr ''Demo'')],
        body = ''Some notes first.\<newline># Test\<newline>\<newline>Body'',
        sections = [\<lparr>heading = ''Test'', content = ''Body'', level = 1\<rparr>]\<rparr>"
    by code_simp
  have e: "split_nl ''Some notes first.\<newline># Test\<newline>\<newline>Body'' =
     [''Some notes first.''] @ ''# Test'' # [[], ''Body''] \<and>
   headings_from False [''Some notes first.''] = [] \<and>
   \<not> fence_after False [''Some notes first.''] \<and>
   header_match ''# Test'' \<noteq> None \<and>
   headings_from False (split_nl ''Some notes first.\<newline># Test\<newline>\<newline>Body'') \<noteq> []"
    by code_simp
  note t = preamble_in_no_section
      [OF p, of "[''Some notes first.'']" "''# Test''" "[[], ''Body'']",
       unfolded ParsedSkill.select_convs]
  show ?thesis using p e t by blast
qed

section \<open>When parsing fails\<close>









section \<open>Resolution\<close>

text \<open>
  Claim C9. For an identifier that contains the separator \<^verbatim>\<open>/\<close>, \<^verbatim>\<open>resolve\<close> is
  \<^verbatim>\<open>resolveFromGitHub\<close> of the identifier alone: it makes no request, reads no clock and
  leaves the cache of the directory as it was. The result is a coordinate of origin
  \<^verbatim>\<open>github\<close>, and it is one whenever the identifier has two or more segments that are
  not empty; otherwise it is the error for a malformed identifier.
\<close>

theorem resolve_explicit_frame:
  "includes_str ident ''/'' \<Longrightarrow>
   resolve net clk parseHTML ident cache w = (resolveFromGitHub ident, cache, w) \<and>
   (case resolveFromGitHub ident of
      Inr r \<Rightarrow> source r = github \<and> metadata r = None
    | Inl err \<Rightarrow>
        err = SkillResolutionError ''Invalid identifier format'' ident
                [''Try: owner/repo'', ''Try: owner/repo/skill-name'']
                [(''expectedFormat'', CStr ''owner/repo or owner/repo/skill-name'')]) \<and>
   (2 \<le> length (filter (\<lambda>part. length part > 0) (split_on (CHR ''/'') ident)) \<longrightarrow>
      isl (resolveFromGitHub ident) = False)"
proof -
  assume a: "includes_str ident ''/''"
  have 1: "resolve net clk parseHTML ident cache w = (resolveFromGitHub ident, cache, w)"
    using a by (simp add: resolve_def)
  have 2: "case resolveFromGitHub ident of
      Inr r \<Rightarrow> source r = github \<and> metadata r = None
    | Inl err \<Rightarrow>
        err = SkillResolutionError ''Invalid identifier format'' ident
                [''Try: owner/repo'', ''Try: owner/repo/skill-name'']
                [(''expectedFormat'', CStr ''owner/repo or owner/repo/skill-name'')]"
    by (simp add: resolveFromGitHub_def Let_def split: list.splits)
  have 3: "2 \<le> length (filter (\<lambda>part. length part > 0) (split_on (CHR ''/'') ident)) \<longrightarrow>
      isl (resolveFromGitHub ident) = False"
    by (simp add: resolveFromGitHub_def Let_def split: list.splits)
  show ?thesis using 1 2 3 by blast
qed

theorem resolve_explicit_frame_witness:
  "includes_str ''anthropics/skills/pdf'' ''/'' \<and>
   2 \<le> length (filter (\<lambda>part. length part > 0) (split_on (CHR ''/'') ''anthropics/skills/pdf'')) \<and>
   resolveFromGitHub ''anthropics/skills/pdf'' =
     Inr \<lparr>owner = ''anthropics'', repo = ''skills'', skillPath = ''skills/pdf'',
          fullUrl = ''https://raw.githubusercontent.com/anthropics/skills/main/skills/pdf/SKILL.md'',
          source = github, metadata = None\<rparr> \<and>
   resolve net_500 clock_zero no_entries ''anthropics/skills/pdf'' (Some (pdf_directory, 0)) start =
     (resolveFromGitHub ''anthropics/skills/pdf'', Some (pdf_directory, 0), start)"
proof -
  have e: "includes_str ''anthropics/skills/pdf'' ''/'' \<and>
   2 \<le> length (filter (\<lambda>part. length part > 0) (split_on (CHR ''/'') ''anthropics/skills/pdf'')) \<and>
   resolveFromGitHub ''anthropics/skills/pdf'' =
     Inr \<lparr>owner = ''anthropics'', repo = ''skills'', skillPath = ''skills/pdf'',
          fullUrl = ''https://raw.githubusercontent.com/anthropics/skills/main/skills/pdf/SKILL.md'',
          source = github, metadata = None\<rparr>"
    by code_simp
  show ?thesis
    using e resolve_explicit_frame
      [of "''anthropics/skills/pdf''" net_500 clock_zero no_entries "Some (pdf_directory, 0)" start]
    by blast
qed

lemma find_in_filter:
  "\<exists>s \<in> set xs. P s \<Longrightarrow> \<exists>s. find P xs = Some s \<and> P s \<and> s \<in> set xs"
  by (induction xs) auto

lemma find_none: "\<forall>s \<in> set xs. \<not> P s \<Longrightarrow> find P xs = None"
  by (induction xs) auto

lemma resolveInDirectory_exact:
  assumes "1 < length (filter (\<lambda>s. toLowerCase (name s) = toLowerCase ident \<or>
                includes_str (toLowerCase (name s)) (toLowerCase ident)) skills)"
    and "\<exists>s \<in> set skills. toLowerCase (name s) = toLowerCase ident"
  shows "\<exists>s \<in> set skills. toLowerCase (name s) = toLowerCase ident \<and>
           resolveInDirectory skills ident = Inr (skillShEntryToResolvedSkill s)"
proof -
  let ?m = "filter (\<lambda>s. toLowerCase (name s) = toLowerCase ident \<or>
                includes_str (toLowerCase (name s)) (toLowerCase ident)) skills"
  have "\<exists>s \<in> set ?m. toLowerCase (name s) = toLowerCase ident" using assms(2) by auto
  then obtain s where s: "find (\<lambda>s. toLowerCase (name s) = toLowerCase ident) ?m = Some s"
      "toLowerCase (name s) = toLowerCase ident" "s \<in> set ?m"
    using find_in_filter[of ?m "\<lambda>s. toLowerCase (name s) = toLowerCase ident"] by blast
  have ne: "?m \<noteq> []" using assms(1) by auto
  have "resolveInDirectory skills ident = Inr (skillShEntryToResolvedSkill s)"
    using assms(1) s(1) ne by (simp add: resolveInDirectory_def Let_def)
  moreover have "s \<in> set skills" using s(3) by simp
  ultimately show ?thesis using s(2) by blast
qed

lemma resolveInDirectory_ambiguous:
  assumes "1 < length (filter (\<lambda>s. toLowerCase (name s) = toLowerCase ident \<or>
                includes_str (toLowerCase (name s)) (toLowerCase ident)) skills)"
    and "\<forall>s \<in> set skills. toLowerCase (name s) \<noteq> toLowerCase ident"
  shows "resolveInDirectory skills ident =
           Inl (SkillResolutionError (''Multiple skills match '' @ quoted ident) ident
                  (map (\<lambda>s. entry_owner s @ ''/'' @ entry_repo s @ ''/'' @ name s)
                     (filter (\<lambda>s. toLowerCase (name s) = toLowerCase ident \<or>
                        includes_str (toLowerCase (name s)) (toLowerCase ident)) skills))
                  [(''matchCount'', CNum (length (filter (\<lambda>s. toLowerCase (name s) = toLowerCase ident \<or>
                        includes_str (toLowerCase (name s)) (toLowerCase ident)) skills)))])"
proof -
  let ?m = "filter (\<lambda>s. toLowerCase (name s) = toLowerCase ident \<or>
                includes_str (toLowerCase (name s)) (toLowerCase ident)) skills"
  have "\<forall>s \<in> set ?m. \<not> toLowerCase (name s) = toLowerCase ident" using assms(2) by auto
  then have "find (\<lambda>s. toLowerCase (name s) = toLowerCase ident) ?m = None"
    by (rule find_none)
  moreover have "?m \<noteq> []" using assms(1) by auto
  ultimately show ?thesis using assms(1) by (simp add: resolveInDirectory_def Let_def)
qed

text \<open>
  Claim C5. For an identifier without separator, \<^verbatim>\<open>resolve\<close> fetches the directory
  and matches the identifier against it without regard to case, on equality or
  containment. When more than one entry matches and some entry is equal to the
  identifier, the result of \<^verbatim>\<open>resolve\<close> is the coordinate of an entry that is equal
  to it; when more than one matches and none is equal, the result is the error that lists
  every candidate as owner/repo/name. With \<^verbatim>\<open>pdf-extractor\<close> and \<^verbatim>\<open>pdf\<close> in the
  directory, \<^verbatim>\<open>resolve\<close> of \<^verbatim>\<open>pdf\<close> is the coordinate of an entry named
  \<^verbatim>\<open>pdf\<close>.
\<close>

theorem exact_match_wins:
  "\<not> includes_str ident ''/'' \<Longrightarrow>
   fetchSkillsDirectory net clk parseHTML cache w = (Inr skills, cache', w') \<Longrightarrow>
   snd (resolve net clk parseHTML ident cache w) = (cache', w') \<and>
   (1 < length (filter (\<lambda>s. toLowerCase (name s) = toLowerCase ident \<or>
                  includes_str (toLowerCase (name s)) (toLowerCase ident)) skills) \<and>
    (\<exists>s \<in> set skills. toLowerCase (name s) = toLowerCase ident) \<longrightarrow>
      (\<exists>s \<in> set skills. toLowerCase (name s) = toLowerCase ident \<and>
         fst (resolve net clk parseHTML ident cache w) =
           Inr (skillShEntryToResolvedSkill s))) \<and>
   (1 < length (filter (\<lambda>s. toLowerCase (name s) = toLowerCase ident \<or>
                  includes_str (toLowerCase (name s)) (toLowerCase ident)) skills) \<and>
    (\<forall>s \<in> set skills. toLowerCase (name s) \<noteq> toLowerCase ident) \<longrightarrow>
      fst (resolve net clk parseHTML ident cache w) =
        Inl (SkillResolutionError (''Multiple skills match '' @ quoted ident) ident
               (map (\<lambda>s. entry_owner s @ ''/'' @ entry_repo s @ ''/'' @ name s)
                  (filter (\<lambda>s. toLowerCase (name s) = toLowerCase ident \<or>
                     includes_str (toLowerCase (name s)) (toLowerCase ident)) skills))
               [(''matchCount'', CNum (length (filter (\<lambda>s. toLowerCase (name s) = toLowerCase ident \<or>
                     includes_str (toLowerCase (name s)) (toLowerCase ident)) skills)))])) \<and>
   (ident = ''pdf'' \<and> (\<exists>s \<in> set skills. name s = ''pdf-extractor'') \<and>
    (\<exists>s \<in> set skills. name s = ''pdf'') \<longrightarrow>
      (\<exists>s \<in> set skills. toLowerCase (name s) = ''pdf'' \<and>
         fst (resolve net clk parseHTML ident cache w) =
           Inr (skillShEntryToResolvedSkill s)))"
proof -
  assume n: "\<not> includes_str ident ''/''"
    and f: "fetchSkillsDirectory net clk parseHTML cache w = (Inr skills, cache', w')"
  let ?m = "filter (\<lambda>s. toLowerCase (name s) = toLowerCase ident \<or>
                  includes_str (toLowerCase (name s)) (toLowerCase ident)) skills"
  have r: "resolve net clk parseHTML ident cache w =
     (resolveInDirectory skills ident, cache', w')"
    using n f by (simp add: resolve_def resolveFromSkillsSh_def)
  have 0: "fst (resolve net clk parseHTML ident cache w) = resolveInDirectory skills ident"
    using r by simp
  have 1: "snd (resolve net clk parseHTML ident cache w) = (cache', w')"
    using r by simp
  have 2: "\<exists>s \<in> set skills. toLowerCase (name s) = toLowerCase ident \<and>
         resolveInDirectory skills ident = Inr (skillShEntryToResolvedSkill s)"
    if "1 < length ?m \<and> (\<exists>s \<in> set skills. toLowerCase (name s) = toLowerCase ident)"
    using that by (intro resolveInDirectory_exact) auto
  have 3: "resolveInDirectory skills ident =
        Inl (SkillResolutionError (''Multiple skills match '' @ quoted ident) ident
               (map (\<lambda>s. entry_owner s @ ''/'' @ entry_repo s @ ''/'' @ name s) ?m)
               [(''matchCount'', CNum (length ?m))])"
    if "1 < length ?m \<and> (\<forall>s \<in> set skills. toLowerCase (name s) \<noteq> toLowerCase ident)"
    using that by (intro resolveInDirectory_ambiguous) auto
  have 4: "\<exists>s \<in> set skills. toLowerCase (name s) = ''pdf'' \<and>
         resolveInDirectory skills ident = Inr (skillShEntryToResolvedSkill s)"
    if h: "ident = ''pdf'' \<and> (\<exists>s \<in> set skills. name s = ''pdf-extractor'') \<and>
      (\<exists>s \<in> set skills. name s = ''pdf'')"
  proof -
    have low: "toLowerCase ''pdf'' = ''pdf''" "toLowerCase ''pdf-extractor'' = ''pdf-extractor''"
      by (simp_all add: toLowerCase_def lower_char_def)
    obtain a b where a: "a \<in> set skills" "name a = ''pdf-extractor''"
      and b: "b \<in> set skills" "name b = ''pdf''" using h by blast
    have ab: "a \<noteq> b" using a b by auto
    have "a \<in> set ?m" using a h low by simp
    moreover have "b \<in> set ?m" using b h low by simp
    ultimately have "{a, b} \<subseteq> set ?m" by simp
    then have "card {a, b} \<le> card (set ?m)" by (intro card_mono) auto
    then have "2 \<le> card (set ?m)" using ab by simp
    then have "1 < length ?m" using card_length[of ?m] by linarith
    moreover have "\<exists>s \<in> set skills. toLowerCase (name s) = toLowerCase ident"
    proof -
      have "toLowerCase (name b) = toLowerCase ident" using b(2) h by simp
      then show ?thesis using b(1) by blast
    qed
    ultimately have "\<exists>s \<in> set skills. toLowerCase (name s) = toLowerCase ident \<and>
         resolveInDirectory skills ident = Inr (skillShEntryToResolvedSkill s)"
      by (intro resolveInDirectory_exact) auto
    then show ?thesis using h low by auto
  qed
  show ?thesis unfolding 0 using 1 2 3 4 by blast
qed

theorem exact_match_wins_witness:
  "\<not> includes_str ''pdf'' ''/'' \<and> \<not> includes_str ''PD'' ''/'' \<and>
   fetchSkillsDirectory net_500 clock_zero no_entries (Some (pdf_directory, 0)) start =
     (Inr pdf_directory, Some (pdf_directory, 0), start\<lparr>ticks := 1\<rparr>) \<and>
   (\<exists>s \<in> set pdf_directory. name s = ''pdf-extractor'') \<and>
   (\<exists>s \<in> set pdf_directory. name s = ''pdf'') \<and>
   (\<exists>s \<in> set pdf_directory. toLowerCase (name s) = ''pdf'' \<and>
      fst (resolve net_500 clock_zero no_entries ''pdf'' (Some (pdf_directory, 0)) start) =
        Inr (skillShEntryToResolvedSkill s)) \<and>
   1 < length (filter (\<lambda>s. toLowerCase (name s) = toLowerCase ''PD'' \<or>
                  includes_str (toLowerCase (name s)) (toLowerCase ''PD'')) pdf_directory) \<and>
   fst (resolve net_500 clock_zero no_entries ''PD'' (Some (pdf_directory, 0)) start) =
     Inl (SkillResolutionError (''Multiple skills match '' @ quoted ''PD'') ''PD''
            (map (\<lambda>s. entry_owner s @ ''/'' @ entry_repo s @ ''/'' @ name s)
               (filter (\<lambda>s. toLowerCase (name s) = toLowerCase ''PD'' \<or>
                  includes_str (toLowerCase (name s)) (toLowerCase ''PD'')) pdf_directory))
            [(''matchCount'', CNum (length (filter (\<lambda>s. toLowerCase (name s) = toLowerCase ''PD'' \<or>
                  includes_str (toLowerCase (name s)) (toLowerCase ''PD'')) pdf_directory)))]) \<and>
   resolve net_500 clock_zero no_entries ''pdf'' (Some (pdf_directory, 0)) start =
     (Inr \<lparr>owner = ''anthropics'', repo = ''skills'', skillPath = ''skills/pdf'',
           fullUrl = ''https://raw.githubusercontent.com/anthropics/skills/main/skills/pdf/SKILL.md'',
           source = skills_sh,
           metadata = Some \<lparr>meta_installs = 30400, meta_trending = False\<rparr>\<rparr>,
      Some (pdf_directory, 0), start\<lparr>ticks := 1\<rparr>) \<and>
   resolve net_500 clock_zero no_entries ''PD'' (Some (pdf_directory, 0)) start =
     (Inl (SkillResolutionError (''Multiple skills match '' @ quoted ''PD'') ''PD''
             [''acme/tools/pdf-extractor'', ''anthropics/skills/pdf'']
             [(''matchCount'', CNum 2)]),
      Some (pdf_directory, 0), start\<lparr>ticks := 1\<rparr>)"
proof -
  have n1: "\<not> includes_str ''pdf'' ''/''" by code_simp
  have n2: "\<not> includes_str ''PD'' ''/''" by code_simp
  have f: "fetchSkillsDirectory net_500 clock_zero no_entries (Some (pdf_directory, 0)) start =
     (Inr pdf_directory, Some (pdf_directory, 0), start\<lparr>ticks := 1\<rparr>)"
    by code_simp
  have x1: "\<exists>s \<in> set pdf_directory. name s = ''pdf-extractor''" by code_simp
  have x2: "\<exists>s \<in> set pdf_directory. name s = ''pdf''" by code_simp
  have h4: "''pdf'' = ''pdf'' \<and> (\<exists>s \<in> set pdf_directory. name s = ''pdf-extractor'') \<and>
      (\<exists>s \<in> set pdf_directory. name s = ''pdf'')"
    using x1 x2 by (intro conjI refl)
  have e: "1 < length (filter (\<lambda>s. toLowerCase (name s) = toLowerCase ''PD'' \<or>
                  includes_str (toLowerCase (name s)) (toLowerCase ''PD'')) pdf_directory)"
    by code_simp
  have y: "\<forall>s \<in> set pdf_directory. toLowerCase (name s) \<noteq> toLowerCase ''PD''"
    by code_simp
  have h3: "1 < length (filter (\<lambda>s. toLowerCase (name s) = toLowerCase ''PD'' \<or>
                  includes_str (toLowerCase (name s)) (toLowerCase ''PD'')) pdf_directory) \<and>
      (\<forall>s \<in> set pdf_directory. toLowerCase (name s) \<noteq> toLowerCase ''PD'')"
    using e y by (intro conjI)
  note c4 = exact_match_wins[OF n1 f, THEN conjunct2, THEN conjunct2, THEN conjunct2,
      THEN mp, OF h4]
  note c3 = exact_match_wins[OF n2 f, THEN conjunct2, THEN conjunct2, THEN conjunct1,
      THEN mp, OF h3]
  have a1: "resolve net_500 clock_zero no_entries ''pdf'' (Some (pdf_directory, 0)) start =
     (Inr \<lparr>owner = ''anthropics'', repo = ''skills'', skillPath = ''skills/pdf'',
           fullUrl = ''https://raw.githubusercontent.com/anthropics/skills/main/skills/pdf/SKILL.md'',
           source = skills_sh,
           metadata = Some \<lparr>meta_installs = 30400, meta_trending = False\<rparr>\<rparr>,
      Some (pdf_directory, 0), start\<lparr>ticks := 1\<rparr>)"
    by code_simp
  have b1: "resolve net_500 clock_zero no_entries ''PD'' (Some (pdf_directory, 0)) start =
     (Inl (SkillResolutionError (''Multiple skills match '' @ quoted ''PD'') ''PD''
             [''acme/tools/pdf-extractor'', ''anthropics/skills/pdf'']
             [(''matchCount'', CNum 2)]),
      Some (pdf_directory, 0), start\<lparr>ticks := 1\<rparr>)"
    by code_simp
  show ?thesis
    by (intro conjI n1 n2 f x1 x2 c4 e c3 a1 b1)
qed

section \<open>Retries and fallback over the branches\<close>

lemma show_nat_3: "show_nat 3 = ''3''"
  by code_simp

lemma show_nat_404: "show_nat 404 = ''404''"
  by code_simp

lemma fetchUrl_world: "snd (fetchUrl net u w) = w\<lparr>requests := requests w @ [u]\<rparr>"
  by (simp add: fetchUrl_def request_def split: response.splits)

lemma fetchUrl_fail:
  "failure_message (net (length (requests w)) u) = Some m \<Longrightarrow>
   \<exists>e. fetchUrl net u w = (Inl e, w\<lparr>requests := requests w @ [u]\<rparr>) \<and> message e = m"
  by (auto simp: fetchUrl_def request_def failure_message_def split: response.splits if_splits)

lemma fetchUrl_ok:
  "net (length (requests w)) u = Response st stt b \<Longrightarrow> response_ok st \<Longrightarrow>
   fetchUrl net u w = (Inr b, w\<lparr>requests := requests w @ [u]\<rparr>)"
  by (simp add: fetchUrl_def request_def)

lemma attempts_done:
  "fetch_attempts net u 3 le w =
     (Inl (NetworkError ''Failed to fetch after 3 attempts'' u None 3
             [(''lastError'', CStr (case le of Some e \<Rightarrow> message e | None \<Rightarrow> ''Unknown error'')),
              (''suggestion'', CStr ''Check your internet connection and try again'')]),
      w)"
  by (subst fetch_attempts.simps) (simp add: maxRetries_def show_nat_3)

lemma attempts_step:
  "a < 3 \<Longrightarrow>
   fetch_attempts net u a le w =
     (case fetchUrl net u w of
        (Inr t, w1) \<Rightarrow> (Inr t, w1)
      | (Inl e, w1) \<Rightarrow>
          if includes_str (message e) ''404'' then (Inl (not_found_error u a), w1)
          else fetch_attempts net u (a + 1) (Some e)
                 (if a < 2 then sleep (1000 * 2 ^ a) w1 else w1))"
  apply (subst fetch_attempts.simps)
  unfolding maxRetries_def retryDelayMs_def not_found_error_def
  by (simp split: prod.split sum.split)

lemma attempts_ok:
  "a < 3 \<Longrightarrow> net (length (requests w)) u = Response st stt b \<Longrightarrow> response_ok st \<Longrightarrow>
   fetch_attempts net u a le w = (Inr b, w\<lparr>requests := requests w @ [u]\<rparr>)"
  by (simp add: attempts_step fetchUrl_ok)

lemma attempts_not_found:
  "a < 3 \<Longrightarrow> failure_message (net (length (requests w)) u) = Some m \<Longrightarrow>
   includes_str m ''404'' \<Longrightarrow>
   fetch_attempts net u a le w = (Inl (not_found_error u a), w\<lparr>requests := requests w @ [u]\<rparr>)"
  using fetchUrl_fail[of net w u m] by (auto simp: attempts_step)

lemma attempts_retry:
  "a < 3 \<Longrightarrow> failure_message (net (length (requests w)) u) = Some m \<Longrightarrow>
   \<not> includes_str m ''404'' \<Longrightarrow>
   \<exists>e. message e = m \<and>
     fetch_attempts net u a le w =
       fetch_attempts net u (a + 1) (Some e)
         (if a < 2 then sleep (1000 * 2 ^ a) (w\<lparr>requests := requests w @ [u]\<rparr>)
          else w\<lparr>requests := requests w @ [u]\<rparr>)"
  using fetchUrl_fail[of net w u m] by (auto simp: attempts_step)

lemma retry_0:
  "failure_message (net (length (requests w)) u) = Some m \<Longrightarrow> \<not> includes_str m ''404'' \<Longrightarrow>
   \<exists>e. message e = m \<and>
     fetch_attempts net u 0 le w =
       fetch_attempts net u 1 (Some e) (sleep 1000 (w\<lparr>requests := requests w @ [u]\<rparr>))"
  using attempts_retry[of 0 net w u m le] by simp

lemma retry_1:
  "failure_message (net (length (requests w)) u) = Some m \<Longrightarrow> \<not> includes_str m ''404'' \<Longrightarrow>
   \<exists>e. message e = m \<and>
     fetch_attempts net u 1 le w =
       fetch_attempts net u 2 (Some e) (sleep 2000 (w\<lparr>requests := requests w @ [u]\<rparr>))"
  using attempts_retry[of 1 net w u m le] by (simp add: numeral_2_eq_2)

lemma retry_2:
  "failure_message (net (length (requests w)) u) = Some m \<Longrightarrow> \<not> includes_str m ''404'' \<Longrightarrow>
   \<exists>e. message e = m \<and>
     fetch_attempts net u 2 le w =
       fetch_attempts net u 3 (Some e) (w\<lparr>requests := requests w @ [u]\<rparr>)"
  using attempts_retry[of 2 net w u m le] by (simp add: numeral_3_eq_3 numeral_2_eq_2)

lemma response_cases:
  obtains (ok) st stt b where "r = Response st stt b" "response_ok st"
  | (not_found) m where "failure_message r = Some m" "includes_str m ''404''"
  | (other) m where "failure_message r = Some m" "\<not> includes_str m ''404''"
proof (cases "failure_message r")
  case None
  then have "\<exists>st stt b. r = Response st stt b \<and> response_ok st"
    by (cases r) (auto simp: failure_message_def split: if_splits)
  then show ?thesis using ok by blast
next
  case (Some m)
  then show ?thesis using not_found other by (cases "includes_str m ''404''") blast+
qed

lemma budget_from_2:
  "requests (snd (fetch_attempts net u 2 le w)) = requests w @ [u] \<and>
   sleeps (snd (fetch_attempts net u 2 le w)) = sleeps w"
proof (cases "net (length (requests w)) u" rule: response_cases)
  case (ok st stt b)
  then show ?thesis by (simp add: attempts_ok)
next
  case (not_found m)
  then show ?thesis by (simp add: attempts_not_found)
next
  case (other m)
  then obtain e where "fetch_attempts net u 2 le w =
      fetch_attempts net u 3 (Some e) (w\<lparr>requests := requests w @ [u]\<rparr>)"
    using retry_2[of net w u m le] by blast
  then show ?thesis by (simp add: attempts_done)
qed

lemma budget_from_1:
  "\<exists>k. 1 \<le> k \<and> k \<le> 2 \<and>
     requests (snd (fetch_attempts net u 1 le w)) = requests w @ replicate k u \<and>
     sleeps (snd (fetch_attempts net u 1 le w)) = sleeps w @ take (k - 1) [2000]"
proof (cases "net (length (requests w)) u" rule: response_cases)
  case (ok st stt b)
  then have "requests (snd (fetch_attempts net u 1 le w)) = requests w @ replicate 1 u \<and>
     sleeps (snd (fetch_attempts net u 1 le w)) = sleeps w @ take (1 - 1) [2000]"
    by (simp add: attempts_ok)
  then show ?thesis by (intro exI[of _ 1]) simp
next
  case (not_found m)
  then have "requests (snd (fetch_attempts net u 1 le w)) = requests w @ replicate 1 u \<and>
     sleeps (snd (fetch_attempts net u 1 le w)) = sleeps w @ take (1 - 1) [2000]"
    by (simp add: attempts_not_found)
  then show ?thesis by (intro exI[of _ 1]) simp
next
  case (other m)
  let ?w = "sleep 2000 (w\<lparr>requests := requests w @ [u]\<rparr>)"
  obtain e where "fetch_attempts net u 1 le w = fetch_attempts net u 2 (Some e) ?w"
    using retry_1[of net w u m le] other by blast
  then have "requests (snd (fetch_attempts net u 1 le w)) = requests w @ replicate 2 u \<and>
     sleeps (snd (fetch_attempts net u 1 le w)) = sleeps w @ take (2 - 1) [2000]"
    using budget_from_2[of net u "Some e" ?w]
    by (simp add: sleep_def numeral_2_eq_2)
  then show ?thesis by (intro exI[of _ 2]) simp
qed

lemma budget_from_0:
  "\<exists>k. 1 \<le> k \<and> k \<le> 3 \<and>
     requests (snd (fetch_attempts net u 0 le w)) = requests w @ replicate k u \<and>
     sleeps (snd (fetch_attempts net u 0 le w)) = sleeps w @ take (k - 1) [1000, 2000]"
proof (cases "net (length (requests w)) u" rule: response_cases)
  case (ok st stt b)
  then have "requests (snd (fetch_attempts net u 0 le w)) = requests w @ replicate 1 u \<and>
     sleeps (snd (fetch_attempts net u 0 le w)) = sleeps w @ take (1 - 1) [1000, 2000]"
    by (simp add: attempts_ok)
  then show ?thesis by (intro exI[of _ 1]) simp
next
  case (not_found m)
  then have "requests (snd (fetch_attempts net u 0 le w)) = requests w @ replicate 1 u \<and>
     sleeps (snd (fetch_attempts net u 0 le w)) = sleeps w @ take (1 - 1) [1000, 2000]"
    by (simp add: attempts_not_found)
  then show ?thesis by (intro exI[of _ 1]) simp
next
  case (other m)
  let ?w = "sleep 1000 (w\<lparr>requests := requests w @ [u]\<rparr>)"
  obtain e where e: "fetch_attempts net u 0 le w = fetch_attempts net u 1 (Some e) ?w"
    using retry_0[of net w u m le] other by blast
  obtain k where k: "1 \<le> k" "k \<le> 2"
      "requests (snd (fetch_attempts net u 1 (Some e) ?w)) = requests ?w @ replicate k u"
      "sleeps (snd (fetch_attempts net u 1 (Some e) ?w)) = sleeps ?w @ take (k - 1) [2000]"
    using budget_from_1[of net u "Some e" ?w] by blast
  have "requests (snd (fetch_attempts net u 0 le w)) = requests w @ replicate (Suc k) u"
    using e k(3) by (simp add: sleep_def)
  moreover have "sleeps (snd (fetch_attempts net u 0 le w)) =
      sleeps w @ take (Suc k - 1) [1000, 2000]"
    using e k(1) k(4) by (cases k) (simp_all add: sleep_def)
  ultimately show ?thesis using k(1) k(2) by (intro exI[of _ "Suc k"]) simp
qed

lemma three_failures:
  assumes "failure_message (net (length (requests w)) u) = Some m0" "\<not> includes_str m0 ''404''"
    and "failure_message (net (length (requests w) + 1) u) = Some m1" "\<not> includes_str m1 ''404''"
    and "failure_message (net (length (requests w) + 2) u) = Some m2" "\<not> includes_str m2 ''404''"
  shows "fetchWithRetry net u w =
     (Inl (NetworkError ''Failed to fetch after 3 attempts'' u None 3
             [(''lastError'', CStr m2),
              (''suggestion'', CStr ''Check your internet connection and try again'')]),
      w\<lparr>requests := requests w @ [u, u, u], sleeps := sleeps w @ [1000, 2000]\<rparr>)"
proof -
  let ?w1 = "sleep 1000 (w\<lparr>requests := requests w @ [u]\<rparr>)"
  let ?w2 = "sleep 2000 (?w1\<lparr>requests := requests ?w1 @ [u]\<rparr>)"
  let ?w3 = "?w2\<lparr>requests := requests ?w2 @ [u]\<rparr>"
  obtain e0 where e0: "fetch_attempts net u 0 None w = fetch_attempts net u 1 (Some e0) ?w1"
    using retry_0[of net w u m0 None] assms(1,2) by blast
  have l1: "length (requests ?w1) = length (requests w) + 1" by (simp add: sleep_def)
  have f1: "failure_message (net (length (requests ?w1)) u) = Some m1"
    using assms(3) l1 by simp
  obtain e1 where e1: "fetch_attempts net u 1 (Some e0) ?w1 = fetch_attempts net u 2 (Some e1) ?w2"
    using retry_1[of net ?w1 u m1 "Some e0"] f1 assms(4) by blast
  have l2: "length (requests ?w2) = length (requests w) + 2" by (simp add: sleep_def)
  have f2: "failure_message (net (length (requests ?w2)) u) = Some m2"
    using assms(5) l2 by simp
  obtain e2 where e2: "message e2 = m2"
      "fetch_attempts net u 2 (Some e1) ?w2 = fetch_attempts net u 3 (Some e2) ?w3"
    using retry_2[of net ?w2 u m2 "Some e1"] f2 assms(6) by blast
  have "fetchWithRetry net u w = fetch_attempts net u 3 (Some e2) ?w3"
    using e0 e1 e2(2) by (simp add: fetchWithRetry_def)
  then show ?thesis using e2(1) by (simp add: attempts_done sleep_def)
qed

lemma includes_404: "includes_str (''HTTP '' @ show_nat 404 @ '': '' @ stt) ''404''"
  by (simp add: show_nat_404)

lemma fetchWithRetry_404:
  "net (length (requests w)) u = Response 404 stt b \<Longrightarrow>
   fetchWithRetry net u w = (Inl (not_found_error u 0), w\<lparr>requests := requests w @ [u]\<rparr>)"
proof -
  assume a: "net (length (requests w)) u = Response 404 stt b"
  have "failure_message (net (length (requests w)) u) = Some (''HTTP '' @ show_nat 404 @ '': '' @ stt)"
    using a by (simp add: failure_message_def response_ok_def)
  then show ?thesis
    unfolding fetchWithRetry_def using includes_404 by (intro attempts_not_found) auto
qed

lemma master_only:
  assumes "net (length (requests w))
             (constructGitHubRawUrl (owner r) (repo r) ''main'' (skillPath r)) =
           Response 404 stt1 b1"
    and "net (Suc (length (requests w)))
             (constructGitHubRawUrl (owner r) (repo r) ''master'' (skillPath r)) =
           Response st stt2 b2"
    and "response_ok st"
  shows "fetchSkill net r w =
     (Inr \<lparr>raw = b2, url = constructGitHubRawUrl (owner r) (repo r) ''master'' (skillPath r),
           content_source = r\<rparr>,
      w\<lparr>requests := requests w @
           [constructGitHubRawUrl (owner r) (repo r) ''main'' (skillPath r),
            constructGitHubRawUrl (owner r) (repo r) ''master'' (skillPath r)]\<rparr>)"
proof -
  let ?main = "constructGitHubRawUrl (owner r) (repo r) ''main'' (skillPath r)"
  let ?master = "constructGitHubRawUrl (owner r) (repo r) ''master'' (skillPath r)"
  let ?w1 = "w\<lparr>requests := requests w @ [?main]\<rparr>"
  have 1: "fetchWithRetry net ?main w = (Inl (not_found_error ?main 0), ?w1)"
    using assms(1) by (rule fetchWithRetry_404)
  have "net (length (requests ?w1)) ?master = Response st stt2 b2" using assms(2) by simp
  then have 2: "fetchWithRetry net ?master ?w1 = (Inr b2, ?w1\<lparr>requests := requests ?w1 @ [?master]\<rparr>)"
    unfolding fetchWithRetry_def using assms(3) by (intro attempts_ok) auto
  show ?thesis
    by (simp add: fetchSkill_def defaultBranches_def Let_def 1 2 not_found_error_def)
qed

text \<open>
  What the retry loop and the loop over the branches do on every input: a failure whose
  message contains \<^verbatim>\<open>404\<close>, as the message of a response with status 404 does, ends
  the loop for the URL after one request; three failures without it make three requests
  with the delays 1000 and 2000 between them; in all cases there are between one and
  three requests and the delays are a prefix of 1000, 2000; and a 404 on \<^verbatim>\<open>main\<close>
  followed by the file on \<^verbatim>\<open>master\<close> is two requests and no delay.
\<close>

lemma fetchWithRetry_behaviour:
  "(failure_message (net (length (requests w)) u) = Some m \<and> includes_str m ''404'' \<longrightarrow>
      fetchWithRetry net u w = (Inl (not_found_error u 0), w\<lparr>requests := requests w @ [u]\<rparr>)) \<and>
   (net (length (requests w)) u = Response 404 stt b \<longrightarrow>
      fetchWithRetry net u w = (Inl (not_found_error u 0), w\<lparr>requests := requests w @ [u]\<rparr>)) \<and>
   (failure_message (net (length (requests w)) u) = Some m0 \<and> \<not> includes_str m0 ''404'' \<and>
    failure_message (net (length (requests w) + 1) u) = Some m1 \<and> \<not> includes_str m1 ''404'' \<and>
    failure_message (net (length (requests w) + 2) u) = Some m2 \<and> \<not> includes_str m2 ''404'' \<longrightarrow>
      fetchWithRetry net u w =
        (Inl (NetworkError ''Failed to fetch after 3 attempts'' u None 3
                [(''lastError'', CStr m2),
                 (''suggestion'', CStr ''Check your internet connection and try again'')]),
         w\<lparr>requests := requests w @ [u, u, u], sleeps := sleeps w @ [1000, 2000]\<rparr>)) \<and>
   (\<exists>k. 1 \<le> k \<and> k \<le> 3 \<and>
      requests (snd (fetchWithRetry net u w)) = requests w @ replicate k u \<and>
      sleeps (snd (fetchWithRetry net u w)) = sleeps w @ take (k - 1) [1000, 2000]) \<and>
   (net (length (requests w))
        (constructGitHubRawUrl (owner r) (repo r) ''main'' (skillPath r)) =
      Response 404 stt1 b1 \<and>
    net (Suc (length (requests w)))
        (constructGitHubRawUrl (owner r) (repo r) ''master'' (skillPath r)) =
      Response st stt2 b2 \<and>
    response_ok st \<longrightarrow>
      fetchSkill net r w =
        (Inr \<lparr>raw = b2, url = constructGitHubRawUrl (owner r) (repo r) ''master'' (skillPath r),
              content_source = r\<rparr>,
         w\<lparr>requests := requests w @
              [constructGitHubRawUrl (owner r) (repo r) ''main'' (skillPath r),
               constructGitHubRawUrl (owner r) (repo r) ''master'' (skillPath r)]\<rparr>))"
proof (intro conjI impI)
  assume "failure_message (net (length (requests w)) u) = Some m \<and> includes_str m ''404''"
  then show "fetchWithRetry net u w = (Inl (not_found_error u 0), w\<lparr>requests := requests w @ [u]\<rparr>)"
    unfolding fetchWithRetry_def by (intro attempts_not_found) auto
next
  assume "net (length (requests w)) u = Response 404 stt b"
  then show "fetchWithRetry net u w = (Inl (not_found_error u 0), w\<lparr>requests := requests w @ [u]\<rparr>)"
    by (rule fetchWithRetry_404)
next
  assume "failure_message (net (length (requests w)) u) = Some m0 \<and> \<not> includes_str m0 ''404'' \<and>
    failure_message (net (length (requests w) + 1) u) = Some m1 \<and> \<not> includes_str m1 ''404'' \<and>
    failure_message (net (length (requests w) + 2) u) = Some m2 \<and> \<not> includes_str m2 ''404''"
  then show "fetchWithRetry net u w =
        (Inl (NetworkError ''Failed to fetch after 3 attempts'' u None 3
                [(''lastError'', CStr m2),
                 (''suggestion'', CStr ''Check your internet connection and try again'')]),
         w\<lparr>requests := requests w @ [u, u, u], sleeps := sleeps w @ [1000, 2000]\<rparr>)"
    by (intro three_failures[of net w u m0 m1 m2]) auto
next
  show "\<exists>k. 1 \<le> k \<and> k \<le> 3 \<and>
      requests (snd (fetchWithRetry net u w)) = requests w @ replicate k u \<and>
      sleeps (snd (fetchWithRetry net u w)) = sleeps w @ take (k - 1) [1000, 2000]"
    unfolding fetchWithRetry_def by (rule budget_from_0)
next
  assume "net (length (requests w))
        (constructGitHubRawUrl (owner r) (repo r) ''main'' (skillPath r)) =
      Response 404 stt1 b1 \<and>
    net (Suc (length (requests w)))
        (constructGitHubRawUrl (owner r) (repo r) ''master'' (skillPath r)) =
      Response st stt2 b2 \<and>
    response_ok st"
  then show "fetchSkill net r w =
        (Inr \<lparr>raw = b2, url = constructGitHubRawUrl (owner r) (repo r) ''master'' (skillPath r),
              content_source = r\<rparr>,
         w\<lparr>requests := requests w @
              [constructGitHubRawUrl (owner r) (repo r) ''main'' (skillPath r),
               constructGitHubRawUrl (owner r) (repo r) ''master'' (skillPath r)]\<rparr>)"
    by (intro master_only[of net w r stt1 b1 st stt2 b2]) auto
qed

text \<open>
  Claim C3 fails on the code, which does not do what its own documentation says. When
  every attempt for a URL fails with status 500, \<^verbatim>\<open>fetchWithRetry\<close> makes three
  attempts, so two retries, and sleeps 1 s and 2 s: the delay of 4 s never occurs. When
  the response has status 500 and a status text that mentions 404, the failure is taken
  for a missing file: one attempt, no retry, and an error with status code 404.
\<close>

theorem retry_delays_at_failing_input:
  "fetchWithRetry net_500 ''https://example.com/SKILL.md'' start =
     (Inl (NetworkError ''Failed to fetch after 3 attempts'' ''https://example.com/SKILL.md''
             None 3
             [(''lastError'', CStr ''HTTP 500: Internal Server Error''),
              (''suggestion'', CStr ''Check your internet connection and try again'')]),
      \<lparr>requests = [''https://example.com/SKILL.md'', ''https://example.com/SKILL.md'',
                   ''https://example.com/SKILL.md''],
       sleeps = [1000, 2000], ticks = 0, calls = []\<rparr>) \<and>
   net_500_text_404 0 ''https://example.com/SKILL.md'' = Response 500 ''upstream said 404'' [] \<and>
   fetchWithRetry net_500_text_404 ''https://example.com/SKILL.md'' start =
     (Inl (NetworkError ''Resource not found'' ''https://example.com/SKILL.md'' (Some 404) 0
             [(''message'', CStr ''The requested skill file does not exist'')]),
      \<lparr>requests = [''https://example.com/SKILL.md''], sleeps = [], ticks = 0, calls = []\<rparr>)"
  by code_simp

text \<open>
  Claim C4 fails on the code. When every request is answered with status 500, the error
  of \<^verbatim>\<open>fetchSkill\<close> is the error of the last \<^verbatim>\<open>fetchWithRetry\<close>, passed on as it is:
  it holds the last underlying error and no list of the refs tried. When every request is
  answered 404, the error holds the list of the refs tried and no underlying error.
\<close>

theorem exhausted_refs_error_content:
  "fst (fetchSkill net_500 sample_coordinate start) =
     Inl (NetworkError ''Failed to fetch after 3 attempts''
            ''https://raw.githubusercontent.com/acme/agent-skills/HEAD/skills/cleanup/SKILL.md''
            None 3
            [(''lastError'', CStr ''HTTP 500: Internal Server Error''),
             (''suggestion'', CStr ''Check your internet connection and try again'')]) \<and>
   map_of [(''lastError'', CStr ''HTTP 500: Internal Server Error''),
           (''suggestion'', CStr ''Check your internet connection and try again'')]
     ''triedBranches'' = None \<and>
   fst (fetchSkill net_404 sample_coordinate start) =
     Inl (NetworkError ''Skill not found at acme/agent-skills/skills/cleanup''
            ''https://raw.githubusercontent.com/acme/agent-skills/HEAD/skills/cleanup/SKILL.md''
            (Some 404) 0
            [(''triedBranches'', CList [''main'', ''master'', ''HEAD'']),
             (''suggestion'', CStr ''Verify the skill name and repository are correct'')]) \<and>
   map_of [(''triedBranches'', CList [''main'', ''master'', ''HEAD'']),
           (''suggestion'', CStr ''Verify the skill name and repository are correct'')]
     ''lastError'' = None"
  by code_simp

section \<open>The import workflow\<close>

lemma request_calls: "calls (snd (request net u w)) = calls w"
  by (simp add: request_def)

lemma fetchUrl_calls: "calls (snd (fetchUrl net u w)) = calls w"
  by (simp add: fetchUrl_world)

lemma fetch_attempts_calls: "calls (snd (fetch_attempts net u a le w)) = calls w"
proof (induction net u a le w rule: fetch_attempts.induct)
  case (1 net u attempt lastError w)
  show ?case
  proof (cases "attempt < maxRetries")
    case False
    then show ?thesis by (subst fetch_attempts.simps) simp
  next
    case True
    obtain r w1 where f: "fetchUrl net u w = (r, w1)" by (cases "fetchUrl net u w")
    have w1: "calls w1 = calls w" using fetchUrl_calls[of net u w] f by simp
    show ?thesis
    proof (cases r)
      case (Inr t)
      then show ?thesis using True f w1 by (subst fetch_attempts.simps) simp
    next
      case (Inl e)
      show ?thesis
      proof (cases "includes_str (message e) ''404''")
        case True
        then show ?thesis using \<open>attempt < maxRetries\<close> f w1 Inl
          by (subst fetch_attempts.simps) simp
      next
        case False
        have "calls (snd (fetch_attempts net u (attempt + 1) (Some e)
                 (if attempt < maxRetries - 1 then sleep (retryDelayMs * 2 ^ attempt) w1 else w1))) =
              calls (if attempt < maxRetries - 1 then sleep (retryDelayMs * 2 ^ attempt) w1 else w1)"
          using "1.IH"[OF True f[symmetric] Inl False] by simp
        then show ?thesis using True f w1 Inl False
          by (subst fetch_attempts.simps) (simp add: sleep_def)
      qed
    qed
  qed
qed

lemma fetchWithRetry_calls: "calls (snd (fetchWithRetry net u w)) = calls w"
  by (simp add: fetchWithRetry_def fetch_attempts_calls)

lemma try_branches_calls: "calls (snd (try_branches net r bs tried le w)) = calls w"
proof (induction bs arbitrary: tried le w)
  case Nil
  then show ?case by simp
next
  case (Cons b bs)
  let ?u = "constructGitHubRawUrl (owner r) (repo r) b (skillPath r)"
  obtain x w1 where f: "fetchWithRetry net ?u w = (x, w1)" by (cases "fetchWithRetry net ?u w")
  have w1: "calls w1 = calls w" using fetchWithRetry_calls[of net ?u w] f by simp
  show ?case using f w1 Cons.IH[of "tried @ [b]" _ w1]
    by (cases x) (simp_all add: Let_def)
qed

lemma fetchSkill_calls: "calls (snd (fetchSkill net r w)) = calls w"
  by (simp add: fetchSkill_def try_branches_calls)

lemma refreshSkillsDirectory_calls:
  "calls (snd (snd (refreshSkillsDirectory net clk parseHTML cache w))) = calls w"
  by (simp add: refreshSkillsDirectory_def request_def now_def Let_def
           split: response.splits option.splits prod.splits)

lemma fetchSkillsDirectory_calls:
  "calls (snd (snd (fetchSkillsDirectory net clk parseHTML cache w))) = calls w"
  by (simp add: fetchSkillsDirectory_def refreshSkillsDirectory_calls now_def Let_def
           split: option.splits prod.splits)

lemma resolve_calls: "calls (snd (snd (resolve net clk parseHTML ident cache w))) = calls w"
proof -
  obtain x c w1 where f: "fetchSkillsDirectory net clk parseHTML cache w = (x, c, w1)"
    by (cases "fetchSkillsDirectory net clk parseHTML cache w")
  then have "calls w1 = calls w" using fetchSkillsDirectory_calls[of net clk parseHTML cache w] by simp
  then show ?thesis using f
    by (cases x) (simp_all add: resolve_def resolveFromSkillsSh_def)
qed

lemma fetchSkillHandler_calls:
  "calls (snd (fetchSkillHandler e ident w)) = calls w @ [(''fetch_skill'', ident)]"
proof -
  let ?w0 = "enter ''fetch_skill'' ident w"
  obtain x c w1 where r: "resolve (env_net e) (env_clock e) (env_parseHTML e) ident None ?w0 = (x, c, w1)"
    by (cases "resolve (env_net e) (env_clock e) (env_parseHTML e) ident None ?w0")
  have w1: "calls w1 = calls ?w0"
    using resolve_calls[of "env_net e" "env_clock e" "env_parseHTML e" ident None ?w0] r by simp
  show ?thesis
  proof (cases x)
    case (Inl err)
    then show ?thesis using r w1 by (simp add: fetchSkillHandler_def Let_def enter_def)
  next
    case (Inr resolved)
    obtain y w2 where f: "fetchSkill (env_net e) resolved w1 = (y, w2)"
      by (cases "fetchSkill (env_net e) resolved w1")
    have "calls w2 = calls w1" using fetchSkill_calls[of "env_net e" resolved w1] f by simp
    then show ?thesis using r w1 Inr f
      by (cases y) (simp_all add: fetchSkillHandler_def Let_def enter_def)
  qed
qed

lemma convertToSteeringHandler_world:
  "snd (convertToSteeringHandler e t u w) = enter ''convert_to_steering'' t w"
  by (simp add: convertToSteeringHandler_def Let_def split: sum.splits)

lemma convertToPowerHandler_world:
  "snd (convertToPowerHandler e t u w) = enter ''convert_to_power'' t w"
  by (simp add: convertToPowerHandler_def Let_def split: sum.splits)

lemma validateSkillHandler_world:
  "snd (validateSkillHandler t u w) = enter ''validate_skill'' t w"
  by (simp add: validateSkillHandler_def Let_def)

lemma import_blocked:
  assumes "\<not> blank (arg_identifier args)"
    and "outputFormat args \<in> set [''steering'', ''power'']"
    and "fetchSkillHandler e (arg_identifier args)
           (enter ''import_skill'' (arg_identifier args) w) = (Inr fr, w1)"
    and "skipValidation args \<noteq> Some True"
    and "validateSkillHandler (fr_content fr) (fr_url fr) w1 = (Inr v, w2)"
    and "\<not> isValid v"
  shows "importSkillHandler e args w =
     (\<lparr>success = False, result_content = [], filename = [], targetPath = [],
       skillName = arg_identifier args, sourceUrl = fr_url fr,
       result_outputFormat = outputFormat args, validationResult = Some v,
       error = Some (''Security validation failed: '' @
                 join_str '', '' (map description (issues v)))\<rparr>,
      w2)"
  using assms by (simp add: importSkillHandler_def Let_def)

lemma import_skipped:
  assumes "\<not> blank (arg_identifier args)"
    and "outputFormat args \<in> set [''steering'', ''power'']"
    and "fetchSkillHandler e (arg_identifier args)
           (enter ''import_skill'' (arg_identifier args) w) = (Inr fr, w1)"
    and "skipValidation args = Some True"
  shows "snd (importSkillHandler e args w) =
     enter (if outputFormat args = ''steering'' then ''convert_to_steering''
            else ''convert_to_power'') (fr_content fr) w1"
proof (cases "outputFormat args = ''steering''")
  case True
  obtain x w3 where c: "convertToSteeringHandler e (fr_content fr) (fr_url fr) w1 = (x, w3)"
    by (cases "convertToSteeringHandler e (fr_content fr) (fr_url fr) w1")
  then have "w3 = enter ''convert_to_steering'' (fr_content fr) w1"
    using convertToSteeringHandler_world[of e "fr_content fr" "fr_url fr" w1] by simp
  then show ?thesis using assms True c
    by (cases x) (simp_all add: importSkillHandler_def Let_def)
next
  case False
  obtain x w3 where c: "convertToPowerHandler e (fr_content fr) (fr_url fr) w1 = (x, w3)"
    by (cases "convertToPowerHandler e (fr_content fr) (fr_url fr) w1")
  then have "w3 = enter ''convert_to_power'' (fr_content fr) w1"
    using convertToPowerHandler_world[of e "fr_content fr" "fr_url fr" w1] by simp
  then show ?thesis using assms False c
    by (cases x) (simp_all add: importSkillHandler_def Let_def)
qed

text \<open>
  Claim C2. Take an import request with well-formed arguments whose fetch succeeds. If
  validation is not skipped and the verdict on the fetched content is not valid, the
  import fails with the message that joins the descriptions of all the issues, and the
  handlers entered are the import, the fetch and the validation: neither converter is
  entered. If validation is skipped, no validation is entered, and the converter of the
  requested format is entered on the fetched content.
\<close>

theorem unsafe_content_is_not_converted:
  "\<not> blank (arg_identifier args) \<Longrightarrow>
   outputFormat args \<in> set [''steering'', ''power''] \<Longrightarrow>
   fetchSkillHandler e (arg_identifier args)
     (enter ''import_skill'' (arg_identifier args) w) = (Inr fr, w1) \<Longrightarrow>
   (skipValidation args \<noteq> Some True \<and>
    validateSkillHandler (fr_content fr) (fr_url fr) w1 = (Inr v, w2) \<and> \<not> isValid v \<longrightarrow>
      success (fst (importSkillHandler e args w)) = False \<and>
      error (fst (importSkillHandler e args w)) =
        Some (''Security validation failed: '' @ join_str '', '' (map description (issues v))) \<and>
      calls (snd (importSkillHandler e args w)) =
        calls w @ [(''import_skill'', arg_identifier args),
                   (''fetch_skill'', arg_identifier args),
                   (''validate_skill'', fr_content fr)]) \<and>
   (skipValidation args = Some True \<longrightarrow>
      calls (snd (importSkillHandler e args w)) =
        calls w @ [(''import_skill'', arg_identifier args),
                   (''fetch_skill'', arg_identifier args),
                   (if outputFormat args = ''steering'' then ''convert_to_steering''
                    else ''convert_to_power'', fr_content fr)])"
proof -
  assume a: "\<not> blank (arg_identifier args)"
    and b: "outputFormat args \<in> set [''steering'', ''power'']"
    and f: "fetchSkillHandler e (arg_identifier args)
     (enter ''import_skill'' (arg_identifier args) w) = (Inr fr, w1)"
  have c1: "calls w1 = calls w @ [(''import_skill'', arg_identifier args),
                   (''fetch_skill'', arg_identifier args)]"
    using fetchSkillHandler_calls[of e "arg_identifier args"
            "enter ''import_skill'' (arg_identifier args) w"] f
    by (simp add: enter_def)
  have 1: "success (fst (importSkillHandler e args w)) = False \<and>
      error (fst (importSkillHandler e args w)) =
        Some (''Security validation failed: '' @ join_str '', '' (map description (issues v))) \<and>
      calls (snd (importSkillHandler e args w)) =
        calls w @ [(''import_skill'', arg_identifier args),
                   (''fetch_skill'', arg_identifier args),
                   (''validate_skill'', fr_content fr)]"
    if h: "skipValidation args \<noteq> Some True \<and>
      validateSkillHandler (fr_content fr) (fr_url fr) w1 = (Inr v, w2) \<and> \<not> isValid v"
  proof -
    have "w2 = enter ''validate_skill'' (fr_content fr) w1"
      using h validateSkillHandler_world[of "fr_content fr" "fr_url fr" w1] by simp
    then have "calls w2 = calls w @ [(''import_skill'', arg_identifier args),
                   (''fetch_skill'', arg_identifier args),
                   (''validate_skill'', fr_content fr)]"
      using c1 by (simp add: enter_def)
    then show ?thesis using import_blocked[OF a b f, of v w2] h by simp
  qed
  have 2: "calls (snd (importSkillHandler e args w)) =
        calls w @ [(''import_skill'', arg_identifier args),
                   (''fetch_skill'', arg_identifier args),
                   (if outputFormat args = ''steering'' then ''convert_to_steering''
                    else ''convert_to_power'', fr_content fr)]"
    if h: "skipValidation args = Some True"
    using import_skipped[OF a b f h] c1 by (simp add: enter_def)
  show ?thesis using 1 2 by blast
qed

theorem unsafe_content_is_not_converted_witness:
  "\<not> blank (arg_identifier checked_request) \<and>
   outputFormat checked_request \<in> set [''steering'', ''power''] \<and>
   fetchSkillHandler sample_env (arg_identifier checked_request)
     (enter ''import_skill'' (arg_identifier checked_request) start) =
     (Inr fetched_sample, fetched_world) \<and>
   (skipValidation checked_request \<noteq> Some True \<and>
    validateSkillHandler (fr_content fetched_sample) (fr_url fetched_sample) fetched_world =
      (Inr (validate \<lparr>raw = fr_content fetched_sample, url = fr_url fetched_sample\<rparr>),
       enter ''validate_skill'' (fr_content fetched_sample) fetched_world) \<and>
    \<not> isValid (validate \<lparr>raw = fr_content fetched_sample, url = fr_url fetched_sample\<rparr>)) \<and>
   join_str '', ''
     (map description
        (issues (validate \<lparr>raw = fr_content fetched_sample, url = fr_url fetched_sample\<rparr>))) =
     ''Dangerous recursive delete command (rm -rf), Elevated privilege command (sudo)'' \<and>
   success (fst (importSkillHandler sample_env checked_request start)) = False \<and>
   error (fst (importSkillHandler sample_env checked_request start)) =
     Some (''Security validation failed: '' @
       join_str '', ''
         (map description
            (issues (validate \<lparr>raw = fr_content fetched_sample,
                                url = fr_url fetched_sample\<rparr>)))) \<and>
   calls (snd (importSkillHandler sample_env checked_request start)) =
     calls start @ [(''import_skill'', arg_identifier checked_request),
                    (''fetch_skill'', arg_identifier checked_request),
                    (''validate_skill'', fr_content fetched_sample)] \<and>
   \<not> blank (arg_identifier skipping_request) \<and>
   outputFormat skipping_request \<in> set [''steering'', ''power''] \<and>
   fetchSkillHandler sample_env (arg_identifier skipping_request)
     (enter ''import_skill'' (arg_identifier skipping_request) start) =
     (Inr fetched_sample, fetched_world) \<and>
   skipValidation skipping_request = Some True \<and>
   calls (snd (importSkillHandler sample_env skipping_request start)) =
     calls start @ [(''import_skill'', arg_identifier skipping_request),
                    (''fetch_skill'', arg_identifier skipping_request),
                    (if outputFormat skipping_request = ''steering'' then ''convert_to_steering''
                     else ''convert_to_power'', fr_content fetched_sample)]"
proof -
  have a1: "\<not> blank (arg_identifier checked_request)" by code_simp
  have b1: "outputFormat checked_request \<in> set [''steering'', ''power'']" by code_simp
  have f1: "fetchSkillHandler sample_env (arg_identifier checked_request)
     (enter ''import_skill'' (arg_identifier checked_request) start) =
     (Inr fetched_sample, fetched_world)"
    by code_simp
  have nb: "\<not> blank (fr_content fetched_sample)" by code_simp
  have u: "or_unknown (fr_url fetched_sample) = fr_url fetched_sample" by code_simp
  have v: "validateSkillHandler (fr_content fetched_sample) (fr_url fetched_sample) fetched_world =
      (Inr (validate \<lparr>raw = fr_content fetched_sample, url = fr_url fetched_sample\<rparr>),
       enter ''validate_skill'' (fr_content fetched_sample) fetched_world)"
    using nb by (simp only: validateSkillHandler_def Let_def u if_False)
  have s1: "skipValidation checked_request \<noteq> Some True" by code_simp
  have i: "\<not> isValid (validate \<lparr>raw = fr_content fetched_sample, url = fr_url fetched_sample\<rparr>)"
    by code_simp
  have j: "join_str '', ''
     (map description
        (issues (validate \<lparr>raw = fr_content fetched_sample, url = fr_url fetched_sample\<rparr>))) =
     ''Dangerous recursive delete command (rm -rf), Elevated privilege command (sudo)''"
    by code_simp
  have p1: "skipValidation checked_request \<noteq> Some True \<and>
    validateSkillHandler (fr_content fetched_sample) (fr_url fetched_sample) fetched_world =
      (Inr (validate \<lparr>raw = fr_content fetched_sample, url = fr_url fetched_sample\<rparr>),
       enter ''validate_skill'' (fr_content fetched_sample) fetched_world) \<and>
    \<not> isValid (validate \<lparr>raw = fr_content fetched_sample, url = fr_url fetched_sample\<rparr>)"
    using s1 v i by (intro conjI)
  have a2: "\<not> blank (arg_identifier skipping_request)" by code_simp
  have b2: "outputFormat skipping_request \<in> set [''steering'', ''power'']" by code_simp
  have f2: "fetchSkillHandler sample_env (arg_identifier skipping_request)
     (enter ''import_skill'' (arg_identifier skipping_request) start) =
     (Inr fetched_sample, fetched_world)"
    by code_simp
  have s2: "skipValidation skipping_request = Some True" by code_simp
  note t1 = unsafe_content_is_not_converted[OF a1 b1 f1, THEN conjunct1, THEN mp, OF p1]
  note t2 = unsafe_content_is_not_converted[OF a2 b2 f2, THEN conjunct2, THEN mp, OF s2]
  show ?thesis
    by (intro conjI a1 b1 f1 p1 j t1[THEN conjunct1] t1[THEN conjunct2, THEN conjunct1]
          t1[THEN conjunct2, THEN conjunct2] a2 b2 f2 s2 t2)
qed

end
